theory Spec2Isabelle
  imports Complex_Main "HOL-Library.Product_Lexorder"
begin

section \<open>Python values used by the feature pipeline\<close>

subsection \<open>Integers rendered inside f-strings\<close>

text \<open>
  The column names are built with f-strings such as
  \<^verbatim>\<open>f'{mapped_col}_lag_{lag_sec}s'\<close>; an integer is rendered as Python's
  \<^verbatim>\<open>str\<close> does: decimal digits without leading zeros, with a leading minus sign
  for a negative number.
\<close>

definition digit_char :: "nat \<Rightarrow> char" where
  "digit_char d = ''0123456789'' ! d"

fun str_nat :: "nat \<Rightarrow> string" where
  "str_nat n = (if n < 10 then [digit_char n]
                else str_nat (n div 10) @ [digit_char (n mod 10)])"

declare str_nat.simps [simp del]

definition str_int :: "int \<Rightarrow> string" where
  "str_int i = (if i < 0 then CHR ''-'' # str_nat (nat (- i)) else str_nat (nat i))"

subsection \<open>Errors\<close>

text \<open>The exceptions that the modelled code or the library calls it makes can raise.\<close>

datatype error = ZeroDivisionError | ValueError | KeyError | TypeError | OSError

subsection \<open>Cells, columns and tables\<close>

text \<open>
  A cell of a pandas column of floats: \<open>NaN\<close> is the missing value (the only cell for
  which \<^verbatim>\<open>isna\<close> holds), \<open>Num x\<close> a finite number, \<open>PInf\<close> and \<open>NInf\<close> the two
  infinities that a division by zero produces. Arithmetic is the IEEE arithmetic on
  these four kinds of value, over the real numbers: rounding, overflow and the sign of
  zero are not modelled.
\<close>

datatype cell = NaN | Num real | PInf | NInf

type_synonym column = "cell list"

text \<open>
  A DataFrame is the list of its columns in column order, each with its label. In a
  well-formed frame (\<open>wf_table\<close>) all columns have the same number of rows and the
  labels are distinct; the number of rows of a frame is read from its first column.
\<close>

type_synonym table = "(string \<times> column) list"

definition columns :: "table \<Rightarrow> string list" where
  "columns df = map fst df"

definition nrows :: "table \<Rightarrow> nat" where
  "nrows df = (case df of [] \<Rightarrow> 0 | (_, c) # _ \<Rightarrow> length c)"

definition wf_table :: "table \<Rightarrow> bool" where
  "wf_table df \<longleftrightarrow> distinct (columns df) \<and> (\<forall>(n, c) \<in> set df. length c = nrows df)"

text \<open>\<^verbatim>\<open>df[name]\<close> for a label that exactly one column holds.\<close>

definition get_col :: "table \<Rightarrow> string \<Rightarrow> column" where
  "get_col df name = (case map_of df name of Some c \<Rightarrow> c | None \<Rightarrow> [])"

text \<open>
  \<^verbatim>\<open>df[name] = values\<close>: an existing column is replaced where it stands (every column
  that holds the label, when several do), a new one is appended as the last column.
\<close>

definition set_col :: "table \<Rightarrow> string \<Rightarrow> column \<Rightarrow> table" where
  "set_col df name v =
     (if name \<in> set (columns df)
      then map (\<lambda>(n, c). if n = name then (n, v) else (n, c)) df
      else df @ [(name, v)])"

text \<open>
  The generators derive a column with a statement \<^verbatim>\<open>df[new_name] = f(df[base_name])\<close>.
  A base label that one column holds gives that column. A label that no column holds
  raises KeyError. A label that several columns hold selects all of them as a frame,
  \<open>f\<close> maps the frame, and storing a frame of several columns under the single label
  \<open>new_name\<close> raises ValueError.
\<close>

definition read_col :: "table \<Rightarrow> string \<Rightarrow> error + column" where
  "read_col df name =
     (case filter (\<lambda>(n, c). n = name) df of
        [] \<Rightarrow> Inl KeyError
      | [(n, c)] \<Rightarrow> Inr c
      | _ \<Rightarrow> Inl ValueError)"

definition derive_col :: "table \<Rightarrow> string \<Rightarrow> (column \<Rightarrow> column) \<Rightarrow> string \<Rightarrow> error + table" where
  "derive_col df new_name f base_name =
     (case read_col df base_name of
        Inl e \<Rightarrow> Inl e
      | Inr c \<Rightarrow> Inr (set_col df new_name (f c)))"

subsection \<open>Statements and loops that can raise\<close>

text \<open>
  One statement after another, and a \<^verbatim>\<open>for\<close> loop whose body can raise: the first
  error ends the run.
\<close>

definition and_then :: "error + 'a \<Rightarrow> ('a \<Rightarrow> error + 'b) \<Rightarrow> error + 'b" where
  "and_then r f = (case r of Inl e \<Rightarrow> Inl e | Inr x \<Rightarrow> f x)"

fun fold_err :: "('a \<Rightarrow> 'b \<Rightarrow> error + 'b) \<Rightarrow> 'a list \<Rightarrow> 'b \<Rightarrow> error + 'b" where
  "fold_err f [] d = Inr d"
| "fold_err f (x # xs) d = (case f x d of Inl e \<Rightarrow> Inl e | Inr d' \<Rightarrow> fold_err f xs d')"

section \<open>config.py: the schema\<close>

record SchemaConfig =
  continuous_columns :: "string list"
  boolean_columns :: "string list"
  column_mapping :: "string \<rightharpoonup> string"
  lag_seconds :: "int list"
  rolling_windows :: "int list"
  target_column :: string
  timestamp_column :: string

definition get_mapped_column :: "SchemaConfig \<Rightarrow> string \<Rightarrow> string" where
  "get_mapped_column s original_name =
     (case column_mapping s original_name of Some m \<Rightarrow> m | None \<Rightarrow> original_name)"

text \<open>The names that the f-strings of config.py and features.py build.\<close>

definition lag_name :: "string \<Rightarrow> int \<Rightarrow> string" where
  "lag_name mapped_col lag_sec = mapped_col @ ''_lag_'' @ str_int lag_sec @ ''s''"

definition rolling_name :: "string \<Rightarrow> string \<Rightarrow> int \<Rightarrow> string" where
  "rolling_name stat mapped_col window = mapped_col @ ''_rolling_'' @ stat @ ''_'' @ str_int window"

definition get_all_feature_columns :: "SchemaConfig \<Rightarrow> string list" where
  "get_all_feature_columns s =
     concat (map (\<lambda>col.
        let mapped_col = get_mapped_column s col in
          [mapped_col]
          @ map (\<lambda>lag_sec. lag_name mapped_col lag_sec) (lag_seconds s)
          @ concat (map (\<lambda>window.
              [rolling_name ''mean'' mapped_col window,
               rolling_name ''std'' mapped_col window,
               rolling_name ''min'' mapped_col window,
               rolling_name ''max'' mapped_col window]) (rolling_windows s)))
        (continuous_columns s))
     @ map (get_mapped_column s) (boolean_columns s)"

section \<open>features.py: the generators\<close>

subsection \<open>Lag features\<close>

text \<open>
  \<^verbatim>\<open>Series.shift(p)\<close> for a period \<open>p \<ge> 0\<close>: the values move down by \<open>p\<close> rows, the
  first \<open>p\<close> rows become missing and the length is kept.
\<close>

definition shift :: "nat \<Rightarrow> column \<Rightarrow> column" where
  "shift p xs = replicate (min p (length xs)) NaN @ take (length xs - p) xs"

text \<open>
  A \<^verbatim>\<open>datetime\<close> is naive or timezone-aware; the number is its position on the time
  line in microseconds (for an aware one, of its instant in UTC).
\<close>

datatype datetime = Naive int | Aware int

text \<open>
  The organisation's data configuration. The generators read only
  \<^verbatim>\<open>sampling_interval_minutes\<close>; validation reads the dates and \<^verbatim>\<open>min_samples\<close>.
\<close>

record DataConfig =
  start_date :: datetime
  end_date :: datetime
  min_samples :: int
  sampling_interval_minutes :: int

text \<open>
  \<^verbatim>\<open>lag_periods = [max(1, lag_sec // sampling_interval) for lag_sec in lag_seconds]\<close>:
  the floor division raises ZeroDivisionError for a zero interval as soon as there is
  one lag to convert.
\<close>

definition lag_periods :: "int \<Rightarrow> int list \<Rightarrow> error + int list" where
  "lag_periods sampling_interval lags =
     (if lags \<noteq> [] \<and> sampling_interval = 0 then Inl ZeroDivisionError
      else Inr (map (\<lambda>lag_sec. max 1 (lag_sec div sampling_interval)) lags))"

text \<open>
  The inner loop \<^verbatim>\<open>for i, lag_period in enumerate(lag_periods)\<close> for one mapped column
  that is present: each iteration reads the column from the current frame and stores
  the shifted copy under the name built from \<^verbatim>\<open>lag_seconds[i]\<close>.
\<close>

definition lag_column_loop :: "string \<Rightarrow> (int \<times> int) list \<Rightarrow> table \<Rightarrow> error + table" where
  "lag_column_loop mapped_col periods df =
     fold_err (\<lambda>(lag_period, lag_sec) d.
                 derive_col d (lag_name mapped_col lag_sec) (shift (nat lag_period)) mapped_col)
              periods df"

definition create_lag_features :: "SchemaConfig \<Rightarrow> DataConfig \<Rightarrow> table \<Rightarrow> error + table" where
  "create_lag_features s dc df =
     (case lag_periods (sampling_interval_minutes dc * 60) (lag_seconds s) of
        Inl e \<Rightarrow> Inl e
      | Inr ps \<Rightarrow>
          fold_err (\<lambda>col d.
                 let mapped_col = get_mapped_column s col in
                   if mapped_col \<in> set (columns d)
                   then lag_column_loop mapped_col (zip ps (lag_seconds s)) d
                   else Inr d)
               (continuous_columns s) df)"

subsection \<open>Rolling features\<close>

text \<open>
  \<^verbatim>\<open>Series.rolling(window=w, min_periods=1)\<close>: the window of row \<open>i\<close> holds the rows
  \<open>i - w + 1 .. i\<close> that exist. Its observations are the finite values in it: missing
  values are skipped, and pandas turns the infinities into missing values before it
  aggregates a window.
\<close>

definition window_at :: "nat \<Rightarrow> nat \<Rightarrow> column \<Rightarrow> column" where
  "window_at w i xs = drop (Suc i - w) (take (Suc i) xs)"

definition observations :: "column \<Rightarrow> real list" where
  "observations win = concat (map (\<lambda>c. case c of Num x \<Rightarrow> [x] | _ \<Rightarrow> []) win)"

definition rolling_apply :: "(real list \<Rightarrow> cell) \<Rightarrow> nat \<Rightarrow> column \<Rightarrow> column" where
  "rolling_apply f w xs = map (\<lambda>i. f (observations (window_at w i xs))) [0..<length xs]"

text \<open>
  The aggregates. With \<^verbatim>\<open>min_periods=1\<close> a window without observation gives a missing
  value; the standard deviation is the sample one (\<^verbatim>\<open>ddof=1\<close>) and is missing unless
  the window has at least two observations.
\<close>

definition mean :: "real list \<Rightarrow> real" where
  "mean obs = sum_list obs / real (length obs)"

definition stat_mean :: "real list \<Rightarrow> cell" where
  "stat_mean obs = (if obs = [] then NaN else Num (mean obs))"

definition stat_std :: "real list \<Rightarrow> cell" where
  "stat_std obs =
     (if length obs < 2 then NaN
      else Num (sqrt (sum_list (map (\<lambda>x. (x - mean obs)\<^sup>2) obs) / real (length obs - 1))))"

definition stat_min :: "real list \<Rightarrow> cell" where
  "stat_min obs = (if obs = [] then NaN else Num (Min (set obs)))"

definition stat_max :: "real list \<Rightarrow> cell" where
  "stat_max obs = (if obs = [] then NaN else Num (Max (set obs)))"

definition stat_median :: "real list \<Rightarrow> cell" where
  "stat_median obs =
     (if obs = [] then NaN
      else let srt = sort obs; n = length srt in
        if odd n then Num (srt ! (n div 2))
        else Num ((srt ! (n div 2 - 1) + srt ! (n div 2)) / 2))"

text \<open>
  The body of \<^verbatim>\<open>for window in self.schema.rolling_windows\<close> for a mapped column that is
  present. \<^verbatim>\<open>rolling(window=window, min_periods=1)\<close> raises ValueError for a window
  below 1 (a negative window is refused, and a window of 0 is smaller than
  \<^verbatim>\<open>min_periods\<close>). Every statement reads the base column from the frame as it is
  then.
\<close>

definition rolling_window_step :: "string \<Rightarrow> int \<Rightarrow> table \<Rightarrow> error + table" where
  "rolling_window_step mapped_col window d =
     (if window < 1 then Inl ValueError
      else
        let w = nat window in
          and_then (derive_col d (rolling_name ''mean'' mapped_col window)
                      (rolling_apply stat_mean w) mapped_col) (\<lambda>d1.
          and_then (derive_col d1 (rolling_name ''std'' mapped_col window)
                      (rolling_apply stat_std w) mapped_col) (\<lambda>d2.
          and_then (derive_col d2 (rolling_name ''min'' mapped_col window)
                      (rolling_apply stat_min w) mapped_col) (\<lambda>d3.
          and_then (derive_col d3 (rolling_name ''max'' mapped_col window)
                      (rolling_apply stat_max w) mapped_col) (\<lambda>d4.
          derive_col d4 (rolling_name ''median'' mapped_col window)
            (rolling_apply stat_median w) mapped_col)))))"

definition create_rolling_features :: "SchemaConfig \<Rightarrow> table \<Rightarrow> error + table" where
  "create_rolling_features s df =
     fold_err (\<lambda>col d.
        let mapped_col = get_mapped_column s col in
          if mapped_col \<in> set (columns d)
          then fold_err (rolling_window_step mapped_col) (rolling_windows s) d
          else Inr d)
      (continuous_columns s) df"


subsection \<open>Rate-of-change features\<close>

text \<open>Subtraction and division of two float cells.\<close>

fun csub :: "cell \<Rightarrow> cell \<Rightarrow> cell" where
  "csub NaN _ = NaN"
| "csub _ NaN = NaN"
| "csub (Num a) (Num b) = Num (a - b)"
| "csub (Num a) PInf = NInf"
| "csub (Num a) NInf = PInf"
| "csub PInf PInf = NaN"
| "csub PInf _ = PInf"
| "csub NInf NInf = NaN"
| "csub NInf _ = NInf"

fun cdiv :: "cell \<Rightarrow> cell \<Rightarrow> cell" where
  "cdiv NaN _ = NaN"
| "cdiv _ NaN = NaN"
| "cdiv (Num a) (Num b) =
     (if b \<noteq> 0 then Num (a / b)
      else if 0 < a then PInf else if a < 0 then NInf else NaN)"
| "cdiv (Num a) _ = Num 0"
| "cdiv PInf (Num b) = (if 0 \<le> b then PInf else NInf)"
| "cdiv NInf (Num b) = (if 0 \<le> b then NInf else PInf)"
| "cdiv _ _ = NaN"

text \<open>
  \<^verbatim>\<open>fillna(method='ffill')\<close> on one column: a missing cell takes the nearest value
  above it, and stays missing when there is none.
\<close>

fun ffill_from :: "cell \<Rightarrow> column \<Rightarrow> column" where
  "ffill_from prev [] = []"
| "ffill_from prev (x # xs) = (if x = NaN then prev # ffill_from prev xs else x # ffill_from x xs)"

definition ffill :: "column \<Rightarrow> column" where
  "ffill xs = ffill_from NaN xs"

text \<open>\<^verbatim>\<open>Series.diff()\<close>: each row minus the row above it.\<close>

definition diff :: "column \<Rightarrow> column" where
  "diff xs = map (\<lambda>(a, b). csub a b) (zip xs (shift 1 xs))"

text \<open>
  \<^verbatim>\<open>Series.pct_change()\<close> with the defaults of the pandas versions that still accept
  \<^verbatim>\<open>fillna(method=...)\<close>: \<^verbatim>\<open>fill_method='pad'\<close> forward-fills the column first, then
  each row is divided by the row above it and 1 is subtracted.
\<close>

definition pct_change :: "column \<Rightarrow> column" where
  "pct_change xs =
     (let data = ffill xs in map (\<lambda>(a, b). csub (cdiv a b) (Num 1)) (zip data (shift 1 data)))"

definition roc_name :: "string \<Rightarrow> string" where
  "roc_name mapped_col = mapped_col @ ''_roc''"

definition acc_name :: "string \<Rightarrow> string" where
  "acc_name mapped_col = mapped_col @ ''_acceleration''"

definition pct_name :: "string \<Rightarrow> string" where
  "pct_name mapped_col = mapped_col @ ''_pct_change''"

definition roc_column_step :: "string \<Rightarrow> table \<Rightarrow> error + table" where
  "roc_column_step mapped_col d =
     and_then (derive_col d (roc_name mapped_col) diff mapped_col) (\<lambda>d1.
     and_then (derive_col d1 (acc_name mapped_col) diff (roc_name mapped_col)) (\<lambda>d2.
     derive_col d2 (pct_name mapped_col) pct_change mapped_col))"

definition create_rate_of_change_features :: "SchemaConfig \<Rightarrow> table \<Rightarrow> error + table" where
  "create_rate_of_change_features s df =
     fold_err (\<lambda>col d.
        let mapped_col = get_mapped_column s col in
          if mapped_col \<in> set (columns d) then roc_column_step mapped_col d else Inr d)
      (continuous_columns s) df"


section \<open>features.py: cleaning\<close>

subsection \<open>The threshold \<^verbatim>\<open>int(len(df.columns) * 0.7)\<close>\<close>

text \<open>
  The product is a product of doubles. The double \<^verbatim>\<open>0.7\<close> is
  \<open>6305039478318694 / 2^53\<close>; the exact product with the column count is rounded to
  the nearest double, that is to 53 significant bits, ties to the even significand,
  and \<^verbatim>\<open>int\<close> drops the fraction. \<open>round_to_53\<close> works on the numerator over \<open>2^53\<close>.
  (For 90 columns the result is 62, not 63.)
\<close>

fun bitlen :: "nat \<Rightarrow> nat" where
  "bitlen n = (if n = 0 then 0 else Suc (bitlen (n div 2)))"

declare bitlen.simps [simp del]

definition round_to_53 :: "nat \<Rightarrow> nat" where
  "round_to_53 p =
     (if bitlen p \<le> 53 then p
      else let sh = bitlen p - 53; q = p div 2 ^ sh; r = p mod 2 ^ sh; half = 2 ^ (sh - 1) in
        (if half < r \<or> (r = half \<and> odd q) then q + 1 else q) * 2 ^ sh)"

definition thresh_of :: "nat \<Rightarrow> nat" where
  "thresh_of ncols = round_to_53 (ncols * 6305039478318694) div 2 ^ 53"

subsection \<open>Dropping rows and filling gaps\<close>

text \<open>Row \<open>i\<close> of a frame, and the frame restricted to the rows that satisfy \<open>keep\<close>.\<close>

definition row_at :: "table \<Rightarrow> nat \<Rightarrow> cell list" where
  "row_at df i = map (\<lambda>(n, c). c ! i) df"

definition keep_rows :: "(nat \<Rightarrow> bool) \<Rightarrow> table \<Rightarrow> table" where
  "keep_rows keep df = map (\<lambda>(n, c). (n, map (\<lambda>i. c ! i) (filter keep [0..<nrows df]))) df"

text \<open>\<^verbatim>\<open>df.dropna(thresh=k)\<close> keeps the rows with at least \<open>k\<close> values that are not missing.\<close>

definition dropna_thresh :: "nat \<Rightarrow> table \<Rightarrow> table" where
  "dropna_thresh k df = keep_rows (\<lambda>i. k \<le> length (filter (\<lambda>c. c \<noteq> NaN) (row_at df i))) df"

text \<open>\<^verbatim>\<open>df.dropna()\<close> keeps the rows without a missing value.\<close>

definition dropna :: "table \<Rightarrow> table" where
  "dropna df = keep_rows (\<lambda>i. NaN \<notin> set (row_at df i)) df"

text \<open>
  \<^verbatim>\<open>fillna(method='bfill')\<close> on one column mirrors the forward fill: a missing cell
  takes the nearest value below it.
\<close>

definition bfill :: "column \<Rightarrow> column" where
  "bfill xs = rev (ffill (rev xs))"

definition fillna_ffill :: "table \<Rightarrow> table" where
  "fillna_ffill df = map (\<lambda>(n, c). (n, ffill c)) df"

definition fillna_bfill :: "table \<Rightarrow> table" where
  "fillna_bfill df = map (\<lambda>(n, c). (n, bfill c)) df"

text \<open>
  The cleaning statements of \<^verbatim>\<open>engineer_features\<close>:
  \<^verbatim>\<open>df.dropna(thresh=int(len(df.columns) * 0.7))\<close>, then
  \<^verbatim>\<open>df.fillna(method='ffill').fillna(method='bfill')\<close>, then \<^verbatim>\<open>df.dropna()\<close>.
\<close>

definition clean :: "table \<Rightarrow> table" where
  "clean df =
     (let d1 = dropna_thresh (thresh_of (length (columns df))) df;
          d2 = fillna_bfill (fillna_ffill d1)
      in dropna d2)"


section \<open>features.py: selection\<close>

text \<open>
  The scoring functions \<^verbatim>\<open>f_classif\<close> and \<^verbatim>\<open>mutual_info_classif\<close> belong to
  scikit-learn. They are parameters of the model: a scoring function takes the feature
  columns and the target column, restricted to the eligible rows, and returns one
  score per feature.
\<close>

type_synonym score_func = "column list \<Rightarrow> column \<Rightarrow> cell list"

record scorers =
  f_classif :: score_func
  mutual_info_classif :: score_func

text \<open>
  \<^verbatim>\<open>SelectKBest._get_support_mask\<close>: a missing score counts as the lowest finite
  number, the scores are sorted increasingly by a stable sort of their indices, the
  last \<open>k\<close> indices are marked, and the marked indices are reported in increasing order.
  For \<open>k = 0\<close> nothing is marked. \<open>score_key\<close> places the cleaned scores in their order:
  minus infinity, the replaced missing score, the finite numbers, plus infinity.
\<close>

fun score_key :: "cell \<Rightarrow> nat \<times> real" where
  "score_key NInf = (0, 0)"
| "score_key NaN = (1, 0)"
| "score_key (Num x) = (2, x)"
| "score_key PInf = (3, 0)"

definition argsort :: "cell list \<Rightarrow> nat list" where
  "argsort scores = sort_key (\<lambda>i. score_key (scores ! i)) [0..<length scores]"

definition get_support :: "cell list \<Rightarrow> nat \<Rightarrow> nat list" where
  "get_support scores k =
     (if k = 0 then []
      else let top = drop (length scores - k) (argsort scores)
           in filter (\<lambda>i. i \<in> set top) [0..<length scores])"

text \<open>The finite cells: \<^verbatim>\<open>fit\<close> refuses input that holds a missing or infinite value.\<close>

definition finite_cell :: "cell \<Rightarrow> bool" where
  "finite_cell c = (case c of Num x \<Rightarrow> True | _ \<Rightarrow> False)"

text \<open>
  \<^verbatim>\<open>select_features\<close>. The eligible rows are those of the mask
  \<^verbatim>\<open>~(X.isna().any(axis=1) | y.isna())\<close>, and the scores are those of the chosen
  scoring function on the eligible rows. \<^verbatim>\<open>df[feature_columns]\<close> and \<^verbatim>\<open>df[target_col]\<close> raise KeyError
  for a label that is absent; an unknown method raises ValueError;
  \<^verbatim>\<open>SelectKBest(...).fit_transform\<close> raises ValueError for a negative \<open>k\<close>, for no
  eligible row, for no feature, for a value that is not finite, and when it selects
  something from a score vector whose length is not the number of features; the final
  \<^verbatim>\<open>df_selected[selected_features + [target_col, timestamp_column]]\<close> raises KeyError
  when the timestamp column is absent.
\<close>

definition eligible_rows :: "table \<Rightarrow> string \<Rightarrow> string list \<Rightarrow> nat list" where
  "eligible_rows df target_col feature_columns =
     (let X = map (get_col df) feature_columns; y = get_col df target_col
      in filter (\<lambda>i. \<not> (list_ex (\<lambda>c. c ! i = NaN) X \<or> y ! i = NaN)) [0..<nrows df])"

definition take_rows :: "nat list \<Rightarrow> column \<Rightarrow> column" where
  "take_rows rows c = map (\<lambda>i. c ! i) rows"

definition selection_scores :: "scorers \<Rightarrow> table \<Rightarrow> string \<Rightarrow> string list \<Rightarrow> string \<Rightarrow> cell list" where
  "selection_scores sc df target_col feature_columns method =
     (let rows = eligible_rows df target_col feature_columns;
          X_clean = map (\<lambda>n. take_rows rows (get_col df n)) feature_columns;
          y_clean = take_rows rows (get_col df target_col);
          score_func = (if method = ''f_classif'' then f_classif sc else mutual_info_classif sc)
      in score_func X_clean y_clean)"

definition select_features ::
  "scorers \<Rightarrow> SchemaConfig \<Rightarrow> table \<Rightarrow> string \<Rightarrow> string list \<Rightarrow> int \<Rightarrow> string
     \<Rightarrow> error + (table \<times> string list)" where
  "select_features sc s df target_col feature_columns k method =
     (if \<not> set feature_columns \<subseteq> set (columns df) then Inl KeyError
      else if target_col \<notin> set (columns df) then Inl KeyError
      else
        let rows = eligible_rows df target_col feature_columns;
            X_clean = map (\<lambda>n. take_rows rows (get_col df n)) feature_columns;
            y_clean = take_rows rows (get_col df target_col)
        in
          if method \<noteq> ''f_classif'' \<and> method \<noteq> ''mutual_info'' then Inl ValueError
          else
            let k' = min k (int (length feature_columns)) in
              if k' < 0 \<or> rows = [] \<or> feature_columns = []
                 \<or> \<not> list_all (list_all finite_cell) X_clean \<or> \<not> list_all finite_cell y_clean
              then Inl ValueError
              else
                let scores = selection_scores sc df target_col feature_columns method;
                    support = get_support scores (nat k');
                    selected_features = map (\<lambda>i. feature_columns ! i) support
                in
                  if support \<noteq> [] \<and> length scores \<noteq> length feature_columns then Inl ValueError
                  else if timestamp_column s \<notin> set (columns df) then Inl KeyError
                  else Inr (map (\<lambda>n. (n, get_col df n))
                                (selected_features @ [target_col, timestamp_column s]),
                            selected_features))"


section \<open>features.py: the pipeline\<close>

text \<open>
  Five generator stages compute with trigonometric functions, quantiles, column-wide
  statistics and timestamps. Their guards are modelled as the source has them; the
  statements under each guard are parameters. The time-based statements can raise
  (the timestamps may not parse).
\<close>

record stage_bodies =
  time_based_body :: "table \<Rightarrow> error + table"
  interaction_body :: "string \<Rightarrow> string \<Rightarrow> table \<Rightarrow> table"
  statistical_body :: "string list \<Rightarrow> table \<Rightarrow> table"
  anomaly_body :: "string \<Rightarrow> table \<Rightarrow> table"
  power_body :: "string \<Rightarrow> string \<Rightarrow> table \<Rightarrow> table"
  temperature_body :: "string \<Rightarrow> table \<Rightarrow> table"
  vibration_body :: "string \<Rightarrow> table \<Rightarrow> table"
  flow_body :: "string \<Rightarrow> string \<Rightarrow> table \<Rightarrow> table"

definition create_time_based_features :: "stage_bodies \<Rightarrow> SchemaConfig \<Rightarrow> table \<Rightarrow> error + table" where
  "create_time_based_features b s df =
     (if timestamp_column s \<in> set (columns df) then time_based_body b df else Inr df)"

definition key_interactions :: "(string \<times> string) list" where
  "key_interactions =
     [(''temperature'', ''pressure''), (''current'', ''voltage''),
      (''vibration'', ''rpm''), (''flow_rate'', ''pressure'')]"

definition create_interaction_features :: "stage_bodies \<Rightarrow> SchemaConfig \<Rightarrow> table \<Rightarrow> table" where
  "create_interaction_features b s df =
     fold (\<lambda>(col1_orig, col2_orig) d.
        let col1 = get_mapped_column s col1_orig; col2 = get_mapped_column s col2_orig in
          if col1 \<in> set (columns d) \<and> col2 \<in> set (columns d) then interaction_body b col1 col2 d else d)
      key_interactions df"

definition create_statistical_features :: "stage_bodies \<Rightarrow> SchemaConfig \<Rightarrow> table \<Rightarrow> table" where
  "create_statistical_features b s df =
     (let continuous_cols = filter (\<lambda>m. m \<in> set (columns df))
                              (map (get_mapped_column s) (continuous_columns s))
      in if 2 \<le> length continuous_cols then statistical_body b continuous_cols df else df)"

definition create_anomaly_features :: "stage_bodies \<Rightarrow> SchemaConfig \<Rightarrow> table \<Rightarrow> table" where
  "create_anomaly_features b s df =
     fold (\<lambda>col d.
        let mapped_col = get_mapped_column s col in
          if mapped_col \<in> set (columns d) then anomaly_body b mapped_col d else d)
      (continuous_columns s) df"

definition create_domain_specific_features :: "stage_bodies \<Rightarrow> SchemaConfig \<Rightarrow> table \<Rightarrow> table" where
  "create_domain_specific_features b s df =
     (let current_col = get_mapped_column s ''current'';
          voltage_col = get_mapped_column s ''voltage'';
          d1 = (if current_col \<in> set (columns df) \<and> voltage_col \<in> set (columns df)
                then power_body b current_col voltage_col df else df);
          temp_col = get_mapped_column s ''temperature'';
          d2 = (if temp_col \<in> set (columns d1) then temperature_body b temp_col d1 else d1);
          vibration_col = get_mapped_column s ''vibration'';
          d3 = (if vibration_col \<in> set (columns d2) then vibration_body b vibration_col d2 else d2);
          flow_col = get_mapped_column s ''flow_rate'';
          pressure_col = get_mapped_column s ''pressure'';
          d4 = (if flow_col \<in> set (columns d3) \<and> pressure_col \<in> set (columns d3)
                then flow_body b flow_col pressure_col d3 else d3)
      in d4)"

text \<open>\<^verbatim>\<open>df.rename(columns=self.schema.column_mapping)\<close>.\<close>

definition rename_columns :: "SchemaConfig \<Rightarrow> table \<Rightarrow> table" where
  "rename_columns s df = map (\<lambda>(n, c). (get_mapped_column s n, c)) df"

text \<open>The renaming and the eight generator stages of \<^verbatim>\<open>engineer_features\<close>, in its order.\<close>

definition run_generators ::
  "stage_bodies \<Rightarrow> SchemaConfig \<Rightarrow> DataConfig \<Rightarrow> table \<Rightarrow> error + table" where
  "run_generators b s dc df =
     (case create_time_based_features b s (rename_columns s df) of
        Inl e \<Rightarrow> Inl e
      | Inr d1 \<Rightarrow>
     (case create_lag_features s dc d1 of
        Inl e \<Rightarrow> Inl e
      | Inr d2 \<Rightarrow>
     (case create_rolling_features s d2 of
        Inl e \<Rightarrow> Inl e
      | Inr d3 \<Rightarrow>
     (case create_rate_of_change_features s d3 of
        Inl e \<Rightarrow> Inl e
      | Inr d4 \<Rightarrow>
          Inr (create_domain_specific_features b s
                (create_anomaly_features b s
                  (create_statistical_features b s
                    (create_interaction_features b s d4))))))))"

text \<open>The candidate feature columns: every column but the target and the timestamp.\<close>

definition candidate_columns :: "SchemaConfig \<Rightarrow> table \<Rightarrow> string list" where
  "candidate_columns s df =
     filter (\<lambda>col. col \<notin> {target_column s, timestamp_column s}) (columns df)"

definition engineer_features ::
  "stage_bodies \<Rightarrow> scorers \<Rightarrow> SchemaConfig \<Rightarrow> DataConfig \<Rightarrow> table \<Rightarrow> bool \<Rightarrow> int
     \<Rightarrow> error + (table \<times> string list)" where
  "engineer_features b sc s dc df include_selection max_features =
     (case run_generators b s dc df of
        Inl e \<Rightarrow> Inl e
      | Inr generated \<Rightarrow>
          let cleaned = clean generated;
              feature_columns = candidate_columns s cleaned
          in if include_selection \<and> max_features < int (length feature_columns)
             then select_features sc s cleaned (target_column s) feature_columns max_features
                    ''f_classif''
             else Inr (cleaned, feature_columns))"


section \<open>config.py: the organisation's configuration and its validation\<close>

record ScadaDbConfig =
  host :: string
  port :: int
  database :: string
  user :: string
  password :: string
  ssl_mode :: string
  connection_timeout :: int

text \<open>Of the training configuration, validation reads the two split fractions.\<close>

record TrainingConfig =
  validation_split :: real
  test_split :: real

record OrganizationConfig =
  organization_id :: string
  scada_db :: ScadaDbConfig
  schema :: SchemaConfig
  training :: TrainingConfig
  data :: DataConfig

text \<open>
  The entries of \<^verbatim>\<open>config_dict['schemaConfig']\<close>; \<open>None\<close> is an absent key.
  \<^verbatim>\<open>_init_schema_config\<close> fills in the defaults and builds the dataclass, which checks
  nothing.
\<close>

record schema_dict =
  continuousColumns :: "string list option"
  booleanColumns :: "string list option"
  columnMapping :: "(string \<rightharpoonup> string) option"
  lagSeconds :: "int list option"
  rollingWindows :: "int list option"
  targetColumn :: "string option"
  timestampColumn :: "string option"

definition dict_get :: "'a option \<Rightarrow> 'a \<Rightarrow> 'a" where
  "dict_get entry dflt = (case entry of Some v \<Rightarrow> v | None \<Rightarrow> dflt)"

definition init_schema_config :: "schema_dict \<Rightarrow> SchemaConfig" where
  "init_schema_config schema_config =
     \<lparr>continuous_columns = dict_get (continuousColumns schema_config)
        [''temperature'', ''pressure'', ''flow_rate'', ''vibration'',
         ''current'', ''voltage'', ''rpm'', ''power_consumption''],
      boolean_columns = dict_get (booleanColumns schema_config)
        [''pump_status'', ''valve_open'', ''alarm_active'', ''maintenance_mode''],
      column_mapping = dict_get (columnMapping schema_config) Map.empty,
      lag_seconds = dict_get (lagSeconds schema_config) [60, 120, 300],
      rolling_windows = dict_get (rollingWindows schema_config) [5, 10, 20],
      target_column = dict_get (targetColumn schema_config) ''failure_indicator'',
      timestamp_column = dict_get (timestampColumn schema_config) ''timestamp''\<rparr>"

text \<open>
  \<^verbatim>\<open>start_date >= end_date\<close> on two datetimes: a naive one cannot be compared with an
  aware one, and the comparison raises TypeError.
\<close>

definition datetime_ge :: "datetime \<Rightarrow> datetime \<Rightarrow> error + bool" where
  "datetime_ge a b =
     (case (a, b) of
        (Naive x, Naive y) \<Rightarrow> Inr (y \<le> x)
      | (Aware x, Aware y) \<Rightarrow> Inr (y \<le> x)
      | _ \<Rightarrow> Inl TypeError)"

text \<open>
  \<^verbatim>\<open>OrganizationConfig.validate\<close> collects the error messages in this order and returns
  the list. On sections whose fields have their declared types, the comparison of the
  dates is the one statement of it that can raise; the messages collected before it
  are then lost.
\<close>

definition validate :: "OrganizationConfig \<Rightarrow> error + string list" where
  "validate c =
     (case datetime_ge (start_date (data c)) (end_date (data c)) of
        Inl e \<Rightarrow> Inl e
      | Inr not_before \<Rightarrow>
          Inr ((if host (scada_db c) = [] then [''SCADA database host is required''] else [])
             @ (if database (scada_db c) = [] then [''SCADA database name is required''] else [])
             @ (if user (scada_db c) = [] then [''SCADA database user is required''] else [])
             @ (if continuous_columns (schema c) = [] \<and> boolean_columns (schema c) = []
                then [''At least one continuous or boolean column must be specified''] else [])
             @ (if target_column (schema c) = [] then [''Target column is required''] else [])
             @ (if not_before then [''Start date must be before end date''] else [])
             @ (if min_samples (data c) \<le> 0 then [''Minimum samples must be positive''] else [])
             @ (if \<not> (0 < validation_split (training c) \<and> validation_split (training c) < 1)
                then [''Validation split must be between 0 and 1''] else [])
             @ (if \<not> (0 < test_split (training c) \<and> test_split (training c) < 1)
                then [''Test split must be between 0 and 1''] else [])
             @ (if 1 \<le> validation_split (training c) + test_split (training c)
                then [''Validation and test splits combined must be less than 1''] else [])))"

text \<open>
  The constructor \<^verbatim>\<open>OrganizationConfig(organization_id, config_dict)\<close> initialises the
  sections in the order database, schema, training, data, model. The sections other
  than the schema read the environment and the clock and parse numbers and dates, and
  \<^verbatim>\<open>save_to_file\<close> writes a file; what these calls do for the given dictionary is a
  parameter: the section they return, or the error they raise.
\<close>

record outside =
  init_scada_db_config :: "error + ScadaDbConfig"
  init_training_config :: "error + TrainingConfig"
  init_data_config :: "error + DataConfig"
  init_model_config :: "error + unit"
  save_to_file :: "OrganizationConfig \<Rightarrow> error + unit"

definition organization_config :: "outside \<Rightarrow> string \<Rightarrow> schema_dict \<Rightarrow> error + OrganizationConfig" where
  "organization_config io org_id schema_config =
     and_then (init_scada_db_config io) (\<lambda>db.
     let sch = init_schema_config schema_config in
     and_then (init_training_config io) (\<lambda>tr.
     and_then (init_data_config io) (\<lambda>da.
     and_then (init_model_config io) (\<lambda>_.
       Inr \<lparr>organization_id = org_id, scada_db = db, schema = sch, training = tr, data = da\<rparr>))))"

text \<open>
  \<^verbatim>\<open>ConfigManager.create_default_config\<close> builds the configuration, validates it, logs
  the messages as one warning when there are any, saves the configuration and
  returns it. The result is the log and the returned configuration.
\<close>

definition create_default_config ::
  "outside \<Rightarrow> string \<Rightarrow> schema_dict \<Rightarrow> error + (string list list \<times> OrganizationConfig)" where
  "create_default_config io org_id schema_config =
     and_then (organization_config io org_id schema_config) (\<lambda>config.
     and_then (validate config) (\<lambda>errors.
     let log = (if errors \<noteq> [] then [errors] else []) in
     and_then (save_to_file io config) (\<lambda>_. Inr (log, config))))"


section \<open>Example configurations and frames\<close>

text \<open>Scenario A of the specification: one continuous column, lag 300 s, window 5.\<close>

definition schema_A :: SchemaConfig where
  "schema_A = \<lparr>continuous_columns = [''temperature''], boolean_columns = [],
     column_mapping = Map.empty, lag_seconds = [300], rolling_windows = [5],
     target_column = ''failure_indicator'', timestamp_column = ''timestamp''\<rparr>"

definition data_A :: DataConfig where
  "data_A = \<lparr>start_date = Naive 0, end_date = Naive 86400000000, min_samples = 1000,
              sampling_interval_minutes = 5\<rparr>"

definition frame_A :: table where
  "frame_A = [(''temperature'', [Num 70, Num 72, Num 75])]"

text \<open>A column with a gap, and a column that starts at zero.\<close>

definition frame_gap :: table where
  "frame_gap = [(''temperature'', [Num 1, NaN, Num 2])]"

definition frame_zero :: table where
  "frame_zero = [(''temperature'', [Num 0, Num 5])]"

text \<open>Two raw columns renamed to the same name.\<close>

definition schema_merge :: SchemaConfig where
  "schema_merge = \<lparr>continuous_columns = [''t1'', ''t2''], boolean_columns = [],
     column_mapping = [''t1'' \<mapsto> ''temp'', ''t2'' \<mapsto> ''temp''], lag_seconds = [], rolling_windows = [],
     target_column = ''failure_indicator'', timestamp_column = ''timestamp''\<rparr>"

text \<open>
  Stage bodies that leave the frame as it is, for inputs on which no guard of the five
  parametric stages holds.
\<close>

definition idle_bodies :: stage_bodies where
  "idle_bodies = \<lparr>time_based_body = Inr, interaction_body = (\<lambda>c1 c2 d. d),
     statistical_body = (\<lambda>cs d. d), anomaly_body = (\<lambda>c d. d), power_body = (\<lambda>c1 c2 d. d),
     temperature_body = (\<lambda>c d. d), vibration_body = (\<lambda>c d. d), flow_body = (\<lambda>c1 c2 d. d)\<rparr>"

text \<open>
  The one-way ANOVA F statistic of a feature against the class labels, by the sums of
  squares that scikit-learn's \<^verbatim>\<open>f_classif\<close> computes, over the reals.
\<close>

definition cell_value :: "cell \<Rightarrow> real" where
  "cell_value c = (case c of Num x \<Rightarrow> x | _ \<Rightarrow> 0)"

definition anova_f :: "column \<Rightarrow> column \<Rightarrow> cell" where
  "anova_f x y =
     (let xs = map cell_value x;
          classes = remdups y;
          n = real (length xs);
          groups = map (\<lambda>k. map fst (filter (\<lambda>(v, l). l = k) (zip xs y))) classes;
          ss_alldata = sum_list (map (\<lambda>v. v * v) xs);
          square_of_sums_alldata = (sum_list xs)\<^sup>2;
          sstot = ss_alldata - square_of_sums_alldata / n;
          ssbn = sum_list (map (\<lambda>g. (sum_list g)\<^sup>2 / real (length g)) groups)
                   - square_of_sums_alldata / n;
          sswn = sstot - ssbn;
          dfbn = real (length classes) - 1;
          dfwn = n - real (length classes);
          msb = cdiv (Num ssbn) (Num dfbn);
          msw = cdiv (Num sswn) (Num dfwn)
      in cdiv msb msw)"

definition anova_scorers :: scorers where
  "anova_scorers = \<lparr>f_classif = (\<lambda>X y. map (\<lambda>x. anova_f x y) X),
                      mutual_info_classif = (\<lambda>X y. map (\<lambda>x. anova_f x y) X)\<rparr>"

text \<open>A frame without any column of \<open>schema_A\<close> but the target, and one whose only row is empty.\<close>

definition frame_humidity :: table where
  "frame_humidity = [(''humidity'', [Num 1, NaN, Num 3]), (''failure_indicator'', [Num 0, Num 1, Num 1])]"

definition frame_blank :: table where
  "frame_blank = [(''failure_indicator'', [NaN])]"


text \<open>
  A configuration whose schema has an empty target column and declares no column;
  everything else is valid.
\<close>

definition config_bad :: OrganizationConfig where
  "config_bad = \<lparr>organization_id = ''sample_org'',
     scada_db = \<lparr>host = ''localhost'', port = 5432, database = ''scada'', user = ''postgres'',
                 password = [], ssl_mode = ''prefer'', connection_timeout = 30\<rparr>,
     schema = \<lparr>continuous_columns = [], boolean_columns = [], column_mapping = Map.empty,
               lag_seconds = [60, 120, 300], rolling_windows = [5, 10, 20],
               target_column = [], timestamp_column = ''timestamp''\<rparr>,
     training = \<lparr>validation_split = 2 / 10, test_split = 1 / 10\<rparr>,
     data = data_A\<rparr>"

definition dict_bad :: schema_dict where
  "dict_bad = \<lparr>continuousColumns = Some [], booleanColumns = Some [], columnMapping = None,
     lagSeconds = None, rollingWindows = None, targetColumn = Some [], timestampColumn = None\<rparr>"

text \<open>Calls outside the modelled code that all succeed, with the sections of \<open>config_bad\<close>.\<close>

definition outside_ok :: outside where
  "outside_ok = \<lparr>init_scada_db_config = Inr (scada_db config_bad),
     init_training_config = Inr (training config_bad), init_data_config = Inr data_A,
     init_model_config = Inr (), save_to_file = (\<lambda>c. Inr ())\<rparr>"

text \<open>The same configuration with a timezone-aware start date and a naive end date.\<close>

definition config_mixed_dates :: OrganizationConfig where
  "config_mixed_dates = config_bad\<lparr>data := data_A\<lparr>start_date := Aware 0\<rparr>\<rparr>"

text \<open>A sampling interval of zero minutes.\<close>

definition data_zero :: DataConfig where
  "data_zero = data_A\<lparr>sampling_interval_minutes := 0\<rparr>"

text \<open>A schema that declares a column whose name is the lag name of another one.\<close>

definition schema_lag_clash :: SchemaConfig where
  "schema_lag_clash = \<lparr>continuous_columns = [''x'', ''x_lag_300s''], boolean_columns = [],
     column_mapping = Map.empty, lag_seconds = [300], rolling_windows = [2],
     target_column = ''failure_indicator'', timestamp_column = ''timestamp''\<rparr>"

definition frame_lag_clash :: table where
  "frame_lag_clash = [(''x'', [Num 1, Num 2, Num 3]), (''x_lag_300s'', [Num 10, Num 20, Num 30])]"

text \<open>
  A window of zero samples, and a schema that declares a column whose name is the
  rolling-mean name of another one.
\<close>

definition schema_window_zero :: SchemaConfig where
  "schema_window_zero = schema_A\<lparr>rolling_windows := [0]\<rparr>"

definition schema_rolling_clash :: SchemaConfig where
  "schema_rolling_clash = \<lparr>continuous_columns = [''x'', ''x_rolling_mean_2''], boolean_columns = [],
     column_mapping = Map.empty, lag_seconds = [300], rolling_windows = [2],
     target_column = ''failure_indicator'', timestamp_column = ''timestamp''\<rparr>"

definition frame_rolling_clash :: table where
  "frame_rolling_clash = [(''x'', [Num 1, Num 2]), (''x_rolling_mean_2'', [NaN, NaN])]"

text \<open>A frame in which two columns hold the label of the declared column.\<close>

definition frame_repeated :: table where
  "frame_repeated = [(''temperature'', [Num 70, Num 72]), (''temperature'', [Num 1, Num 2])]"

text \<open>A column whose first value is missing.\<close>

definition frame_late :: table where
  "frame_late = [(''temperature'', [NaN, Num 72])]"

text \<open>A schema that declares a column whose name is the first-difference name of another one.\<close>

definition schema_roc_clash :: SchemaConfig where
  "schema_roc_clash = \<lparr>continuous_columns = [''x'', ''x_roc''], boolean_columns = [],
     column_mapping = Map.empty, lag_seconds = [300], rolling_windows = [2],
     target_column = ''failure_indicator'', timestamp_column = ''timestamp''\<rparr>"

definition frame_roc_clash :: table where
  "frame_roc_clash = [(''x'', [Num 1, Num 2]), (''x_roc'', [Num 5, Num 10])]"

text \<open>A frame without the target column, whose only row is empty.\<close>

definition frame_unlabelled :: table where
  "frame_unlabelled = [(''humidity'', [NaN])]"

text \<open>The same calls, with a configuration directory that cannot be written.\<close>

definition outside_readonly :: outside where
  "outside_readonly = outside_ok\<lparr>save_to_file := (\<lambda>c. Inl OSError)\<rparr>"

section \<open>Auxiliary notions used in the proofs\<close>

definition digit_val :: "char \<Rightarrow> nat" where
  "digit_val c = length (takeWhile (\<lambda>d. d \<noteq> c) ''0123456789'')"

definition nat_of_str :: "string \<Rightarrow> nat" where
  "nat_of_str s = foldl (\<lambda>a c. 10 * a + digit_val c) 0 s"

definition is_digit :: "char \<Rightarrow> bool" where
  "is_digit c \<longleftrightarrow> c \<in> set ''0123456789''"

text \<open>
  The generators write derived columns computed from base columns. A family of such
  writes is described by the name \<open>nm k\<close> of the column that the write \<open>k\<close> stores, the
  name \<open>bs k\<close> of the column that it reads and the function \<open>vf k\<close> between them.
  \<open>same_on B d d0\<close>: the frames \<open>d\<close> and \<open>d0\<close> agree on the columns named in \<open>B\<close>.
  \<open>written nm bs vf D d d0\<close>: in \<open>d\<close>, every write of \<open>D\<close> holds the value computed from
  the base column of \<open>d0\<close>.
\<close>

definition same_on :: "string set \<Rightarrow> table \<Rightarrow> table \<Rightarrow> bool" where
  "same_on B d d0 \<longleftrightarrow> (\<forall>b\<in>B. map_of d b = map_of d0 b)"

definition written ::
  "('k \<Rightarrow> string) \<Rightarrow> ('k \<Rightarrow> string) \<Rightarrow> ('k \<Rightarrow> column \<Rightarrow> column) \<Rightarrow> 'k set \<Rightarrow> table \<Rightarrow> table \<Rightarrow> bool" where
  "written nm bs vf D d d0 \<longleftrightarrow> (\<forall>k\<in>D. map_of d (nm k) = Some (vf k (get_col d0 (bs k))))"

definition write_keys ::
  "('k \<Rightarrow> string) \<Rightarrow> ('k \<Rightarrow> string) \<Rightarrow> ('k \<Rightarrow> column \<Rightarrow> column) \<Rightarrow> 'k list \<Rightarrow> table \<Rightarrow> table" where
  "write_keys nm bs vf ks d = fold (\<lambda>k d. set_col d (nm k) (vf k (get_col d (bs k)))) ks d"

text \<open>The aggregate that the rolling generator stores under each statistic's name.\<close>

definition stat_fn :: "string \<Rightarrow> real list \<Rightarrow> cell" where
  "stat_fn st = (if st = ''mean'' then stat_mean else if st = ''std'' then stat_std
                 else if st = ''min'' then stat_min else if st = ''max'' then stat_max
                 else stat_median)"

definition rolling_stats :: "string list" where
  "rolling_stats = [''mean'', ''std'', ''min'', ''max'', ''median'']"

definition rolling_keys :: "int list \<Rightarrow> string \<Rightarrow> (string \<times> string \<times> int) list" where
  "rolling_keys windows m = concat (map (\<lambda>w. map (\<lambda>st. (st, m, w)) rolling_stats) windows)"

text \<open>The three columns that the rate-of-change generator derives from a base column.\<close>

definition roc_suffixes :: "string list" where
  "roc_suffixes = [''_roc'', ''_acceleration'', ''_pct_change'']"

definition roc_fn :: "string \<Rightarrow> column \<Rightarrow> column" where
  "roc_fn sfx = (if sfx = ''_roc'' then diff else if sfx = ''_acceleration'' then diff \<circ> diff
                 else pct_change)"

text \<open>The derived names that the schema enumerates for one mapped column.\<close>

definition enumerated_rolling :: "string \<Rightarrow> int \<Rightarrow> string list" where
  "enumerated_rolling m w =
     [rolling_name ''mean'' m w, rolling_name ''std'' m w,
      rolling_name ''min'' m w, rolling_name ''max'' m w]"

definition derived_names :: "SchemaConfig \<Rightarrow> string \<Rightarrow> string list" where
  "derived_names s m =
     map (lag_name m) (lag_seconds s) @ concat (map (enumerated_rolling m) (rolling_windows s))"

text \<open>A frame whose columns all have the length \<open>nrows\<close>, and a frame without a missing cell.\<close>

definition rect :: "table \<Rightarrow> bool" where
  "rect df \<longleftrightarrow> (\<forall>(n, c)\<in>set df. length c = nrows df)"

definition no_missing :: "table \<Rightarrow> bool" where
  "no_missing df \<longleftrightarrow> (\<forall>(n, c)\<in>set df. NaN \<notin> set c)"

text \<open>Two datetimes that are both naive or both timezone-aware.\<close>

definition comparable :: "datetime \<Rightarrow> datetime \<Rightarrow> bool" where
  "comparable a b \<longleftrightarrow>
     (case (a, b) of (Naive x, Naive y) \<Rightarrow> True | (Aware x, Aware y) \<Rightarrow> True | _ \<Rightarrow> False)"

section \<open>Properties of the generated names\<close>

lemma digit_char_inj: "a < 10 \<Longrightarrow> b < 10 \<Longrightarrow> digit_char a = digit_char b \<Longrightarrow> a = b"
  unfolding digit_char_def
  apply (simp add: less_Suc_eq numeral_eq_Suc)
  apply (elim disjE; simp)
  done

lemma digit_char_in: "d < 10 \<Longrightarrow> digit_char d \<in> set ''0123456789''"
  unfolding digit_char_def
  by (simp add: less_Suc_eq numeral_eq_Suc) (elim disjE; simp)

lemma str_nat_digits: "set (str_nat n) \<subseteq> set ''0123456789''"
proof (induction n rule: str_nat.induct)
  case (1 n)
  show ?case
  proof (cases "n < 10")
    case True
    then show ?thesis using digit_char_in[of n] by (subst str_nat.simps) simp
  next
    case False
    have "n mod 10 < 10" by simp
    from digit_char_in[OF this] 1[OF False] False show ?thesis
      by (subst str_nat.simps) simp
  qed
qed

lemma str_nat_nonempty: "str_nat n \<noteq> []"
  by (subst str_nat.simps) simp

lemma digit_val_char: "d < 10 \<Longrightarrow> digit_val (digit_char d) = d"
  unfolding digit_char_def digit_val_def
  by (simp add: less_Suc_eq numeral_eq_Suc) (elim disjE; simp)

lemma nat_of_str_str_nat: "nat_of_str (str_nat n) = n"
proof (induction n rule: str_nat.induct)
  case (1 n)
  show ?case
  proof (cases "n < 10")
    case True
    then show ?thesis by (subst str_nat.simps) (simp add: nat_of_str_def digit_val_char)
  next
    case False
    have "nat_of_str (str_nat n) = 10 * nat_of_str (str_nat (n div 10)) + digit_val (digit_char (n mod 10))"
      using False by (subst str_nat.simps) (simp add: nat_of_str_def)
    also have "\<dots> = 10 * (n div 10) + n mod 10"
      using 1[OF False] by (simp add: digit_val_char)
    finally show ?thesis by simp
  qed
qed

lemma str_nat_inj: "str_nat a = str_nat b \<Longrightarrow> a = b"
  by (metis nat_of_str_str_nat)



lemma is_digit_neq: "is_digit c \<Longrightarrow> c \<noteq> CHR ''_'' \<and> c \<noteq> CHR ''-'' \<and> c \<noteq> CHR ''s''"
  by (auto simp: is_digit_def)

lemma str_nat_is_digit: "c \<in> set (str_nat n) \<Longrightarrow> is_digit c"
  using str_nat_digits[of n] unfolding is_digit_def by blast

lemma str_int_no_underscore: "CHR ''_'' \<notin> set (str_int i)"
proof
  assume "CHR ''_'' \<in> set (str_int i)"
  then have "CHR ''_'' \<in> set (str_nat (nat i)) \<or> CHR ''_'' \<in> set (str_nat (nat (- i)))"
    by (simp add: str_int_def split: if_splits)
  then show False using str_nat_is_digit is_digit_neq by blast
qed

lemma str_int_nonempty: "str_int i \<noteq> []"
  by (simp add: str_int_def str_nat_nonempty)

lemma str_nat_last: "is_digit (last (str_nat n))"
  using str_nat_is_digit[of _ n] str_nat_nonempty[of n] last_in_set by blast

lemma str_int_last: "is_digit (last (str_int i))"
  using str_nat_last[of "nat i"] str_nat_last[of "nat (- i)"] str_nat_nonempty
  by (simp add: str_int_def)

lemma str_int_inj: "str_int a = str_int b \<Longrightarrow> a = b"
proof -
  assume eq: "str_int a = str_int b"
  have hd_digit: "\<And>n. hd (str_nat n) \<noteq> CHR ''-''"
  proof -
    fix n
    have "hd (str_nat n) \<in> set (str_nat n)" using str_nat_nonempty by simp
    then show "hd (str_nat n) \<noteq> CHR ''-''" using str_nat_is_digit is_digit_neq by blast
  qed
  show "a = b"
  proof (cases "a < 0")
    case True
    show ?thesis
    proof (cases "b < 0")
      case True
      with \<open>a < 0\<close> eq have "str_nat (nat (- a)) = str_nat (nat (- b))" by (simp add: str_int_def)
      then have "nat (- a) = nat (- b)" by (rule str_nat_inj)
      with True \<open>a < 0\<close> show ?thesis by simp
    next
      case False
      with \<open>a < 0\<close> eq have "CHR ''-'' # str_nat (nat (- a)) = str_nat (nat b)" by (simp add: str_int_def)
      then have "hd (str_nat (nat b)) = CHR ''-''" by (metis list.sel(1))
      with hd_digit show ?thesis by blast
    qed
  next
    case False
    show ?thesis
    proof (cases "b < 0")
      case True
      with False eq have "str_nat (nat a) = CHR ''-'' # str_nat (nat (- b))" by (simp add: str_int_def)
      then have "hd (str_nat (nat a)) = CHR ''-''" by (metis list.sel(1))
      with hd_digit show ?thesis by blast
    next
      case b: False
      with False eq have "str_nat (nat a) = str_nat (nat b)" by (simp add: str_int_def)
      then have "nat a = nat b" by (rule str_nat_inj)
      with False b show ?thesis by simp
    qed
  qed
qed

text \<open>Splitting a name at its last separator.\<close>

lemma split_at_last:
  assumes "xs @ c # ys = xs' @ c # ys'" and "c \<notin> set ys" and "c \<notin> set ys'"
  shows "xs = xs' \<and> ys = ys'"
proof -
  have "takeWhile (\<lambda>x. x \<noteq> c) (rev (xs @ c # ys)) = rev ys"
    using assms(2) by (auto simp add: takeWhile_tail)
  moreover have "takeWhile (\<lambda>x. x \<noteq> c) (rev (xs' @ c # ys')) = rev ys'"
    using assms(3) by (auto simp add: takeWhile_tail)
  ultimately have "ys = ys'" using assms(1) by (metis rev_is_rev_conv)
  with assms(1) show ?thesis by simp
qed

lemma lag_name_inj:
  assumes "lag_name a l = lag_name b l'"
  shows "a = b \<and> l = l'"
proof -
  have "(a @ ''_lag'') @ CHR ''_'' # (str_int l @ ''s'') = (b @ ''_lag'') @ CHR ''_'' # (str_int l' @ ''s'')"
    using assms by (simp add: lag_name_def)
  then have "a @ ''_lag'' = b @ ''_lag'' \<and> str_int l @ ''s'' = str_int l' @ ''s''"
    by (rule split_at_last) (use str_int_no_underscore in auto)
  then show ?thesis using str_int_inj by simp
qed

lemma rolling_name_inj:
  assumes "rolling_name st a w = rolling_name st' b w'"
    and "CHR ''_'' \<notin> set st" and "CHR ''_'' \<notin> set st'"
  shows "st = st' \<and> a = b \<and> w = w'"
proof -
  have "(a @ ''_rolling_'' @ st) @ CHR ''_'' # str_int w = (b @ ''_rolling_'' @ st') @ CHR ''_'' # str_int w'"
    using assms(1) by (simp add: rolling_name_def)
  then have 1: "a @ ''_rolling_'' @ st = b @ ''_rolling_'' @ st' \<and> str_int w = str_int w'"
    by (rule split_at_last) (use str_int_no_underscore in auto)
  then have "(a @ ''_rolling'') @ CHR ''_'' # st = (b @ ''_rolling'') @ CHR ''_'' # st'" by simp
  then have "a @ ''_rolling'' = b @ ''_rolling'' \<and> st = st'"
    by (rule split_at_last) (use assms in auto)
  with 1 show ?thesis using str_int_inj by simp
qed

lemma lag_name_not_rolling_name: "lag_name a l \<noteq> rolling_name st b w"
proof
  assume "lag_name a l = rolling_name st b w"
  then have "last (lag_name a l) = last (rolling_name st b w)" by simp
  moreover have "last (lag_name a l) = CHR ''s''" by (simp add: lag_name_def)
  moreover have "last (rolling_name st b w) = last (str_int w)"
    using str_int_nonempty by (simp add: rolling_name_def)
  ultimately show False using str_int_last[of w] is_digit_neq by metis
qed

lemma lag_name_not_base: "lag_name a l \<noteq> a"
  by (simp add: lag_name_def)

lemma rolling_name_not_base: "rolling_name st a w \<noteq> a"
  by (simp add: rolling_name_def)

section \<open>Reading and writing columns\<close>

lemma columns_set_col_list:
  "columns (set_col df n v) = (if n \<in> set (columns df) then columns df else columns df @ [n])"
proof -
  have "map fst (map (\<lambda>(k, c). if k = n then (k, v) else (k, c)) d) = map fst d" for d :: table
    by (induction d) auto
  then show ?thesis by (simp add: set_col_def columns_def)
qed

lemma columns_set_col: "set (columns (set_col df n v)) = insert n (set (columns df))"
  by (auto simp: columns_set_col_list)

lemma map_of_set_col: "map_of (set_col df n v) n' = (if n' = n then Some v else map_of df n')"
proof (cases "n \<in> set (columns df)")
  case True
  have "map_of (map (\<lambda>(k, c). if k = n then (k, v) else (k, c)) d) n' =
        (if n' = n then (if n \<in> fst ` set d then Some v else None) else map_of d n')" for d
    by (induction d) (auto split: if_splits)
  with True show ?thesis by (simp add: set_col_def columns_def)
next
  case False
  then have "map_of df n = None" by (simp add: columns_def map_of_eq_None_iff)
  with False show ?thesis by (auto simp: set_col_def map_add_def split: option.splits)
qed

lemma get_col_set_col: "get_col (set_col df n v) n' = (if n' = n then v else get_col df n')"
  by (simp add: get_col_def map_of_set_col)

lemma mem_columns_iff: "n \<in> set (columns df) \<longleftrightarrow> map_of df n \<noteq> None"
  by (simp add: columns_def map_of_eq_None_iff)

lemma length_shift: "length (shift p xs) = length xs"
  by (simp add: shift_def)

lemma shift_nth: "i < length xs \<Longrightarrow> shift p xs ! i = (if i < p then NaN else xs ! (i - p))"
  by (auto simp: shift_def nth_append)


section \<open>Derived columns written from base columns\<close>

lemma same_on_refl: "same_on B d d"
  by (simp add: same_on_def)

lemma same_on_get_col: "same_on B d d0 \<Longrightarrow> b \<in> B \<Longrightarrow> get_col d b = get_col d0 b"
  by (simp add: same_on_def get_col_def)

lemma same_on_mem: "same_on B d d0 \<Longrightarrow> b \<in> B \<Longrightarrow> b \<in> set (columns d) \<longleftrightarrow> b \<in> set (columns d0)"
  by (simp add: same_on_def mem_columns_iff)

lemma write_keys_step:
  assumes inj: "\<forall>k\<in>K. \<forall>k'\<in>K. nm k = nm k' \<longrightarrow> k = k'"
    and nocoll: "\<forall>k\<in>K. nm k \<notin> B"
    and bases: "\<forall>k\<in>K. bs k \<in> B"
    and same: "same_on B d d0"
    and wr: "written nm bs vf D d d0"
    and D: "D \<subseteq> K" and k: "k \<in> K"
  shows "same_on B (set_col d (nm k) (vf k (get_col d (bs k)))) d0
       \<and> written nm bs vf (insert k D) (set_col d (nm k) (vf k (get_col d (bs k)))) d0"
proof -
  have v: "get_col d (bs k) = get_col d0 (bs k)"
    using same bases k by (simp add: same_on_get_col)
  have 1: "same_on B (set_col d (nm k) (vf k (get_col d (bs k)))) d0"
    using same nocoll k unfolding same_on_def by (auto simp: map_of_set_col)
  have 2: "written nm bs vf (insert k D) (set_col d (nm k) (vf k (get_col d (bs k)))) d0"
    unfolding written_def
  proof
    fix k' assume k': "k' \<in> insert k D"
    show "map_of (set_col d (nm k) (vf k (get_col d (bs k)))) (nm k') = Some (vf k' (get_col d0 (bs k')))"
    proof (cases "nm k' = nm k")
      case True
      with k' D k inj have "k' = k" by blast
      then show ?thesis by (simp add: map_of_set_col v)
    next
      case False
      with k' have "k' \<in> D" by auto
      with wr False show ?thesis by (simp add: map_of_set_col written_def)
    qed
  qed
  from 1 2 show ?thesis ..
qed

lemma write_keys_inv:
  assumes inj: "\<forall>k\<in>K. \<forall>k'\<in>K. nm k = nm k' \<longrightarrow> k = k'"
    and nocoll: "\<forall>k\<in>K. nm k \<notin> B"
    and bases: "\<forall>k\<in>K. bs k \<in> B"
  shows "same_on B d d0 \<Longrightarrow> written nm bs vf D d d0 \<Longrightarrow> D \<subseteq> K \<Longrightarrow> set ks \<subseteq> K \<Longrightarrow>
         same_on B (write_keys nm bs vf ks d) d0
       \<and> written nm bs vf (D \<union> set ks) (write_keys nm bs vf ks d) d0"
proof (induction ks arbitrary: d D)
  case Nil
  then show ?case by (simp add: write_keys_def)
next
  case (Cons k ks)
  let ?d = "set_col d (nm k) (vf k (get_col d (bs k)))"
  from Cons.prems have k: "k \<in> K" and ks: "set ks \<subseteq> K" by auto
  from write_keys_step[OF inj nocoll bases Cons.prems(1,2,3) k]
  have s: "same_on B ?d d0" and w: "written nm bs vf (insert k D) ?d d0" by auto
  have "insert k D \<subseteq> K" using k Cons.prems(3) by auto
  from Cons.IH[OF s w this ks] show ?case by (simp add: write_keys_def)
qed

lemma zip_map_self: "zip (map f xs) xs = map (\<lambda>x. (f x, x)) xs"
  by (induction xs) auto

lemma column_loop_inv:
  assumes inj: "\<forall>k\<in>K. \<forall>k'\<in>K. nm k = nm k' \<longrightarrow> k = k'"
    and nocoll: "\<forall>k\<in>K. nm k \<notin> B"
    and bases: "\<forall>k\<in>K. bs k \<in> B"
    and keys: "\<forall>c\<in>C. mp c \<in> B \<and> set (keys_of (mp c)) \<subseteq> K"
  shows "same_on B d d0 \<Longrightarrow> written nm bs vf D d d0 \<Longrightarrow> D \<subseteq> K \<Longrightarrow> set cs \<subseteq> C \<Longrightarrow>
         (let d' = fold (\<lambda>col d. let mapped_col = mp col in
                 if mapped_col \<in> set (columns d)
                 then write_keys nm bs vf (keys_of mapped_col) d
                 else d) cs d
          in same_on B d' d0 \<and>
             written nm bs vf
               (D \<union> {k. \<exists>c\<in>set cs. mp c \<in> set (columns d0) \<and> k \<in> set (keys_of (mp c))}) d' d0)"
proof (induction cs arbitrary: d D)
  case Nil
  then show ?case by simp
next
  case (Cons c cs)
  let ?m = "mp c"
  from Cons.prems(4) keys have mB: "?m \<in> B" and ks: "set (keys_of ?m) \<subseteq> K" by auto
  have cs: "set cs \<subseteq> C" using Cons.prems(4) by auto
  show ?case
  proof (cases "?m \<in> set (columns d)")
    case True
    let ?d1 = "write_keys nm bs vf (keys_of ?m) d"
    from write_keys_inv[OF inj nocoll bases Cons.prems(1,2,3) ks]
    have s1: "same_on B ?d1 d0" and w1: "written nm bs vf (D \<union> set (keys_of ?m)) ?d1 d0" by auto
    have D1: "D \<union> set (keys_of ?m) \<subseteq> K" using ks Cons.prems(3) by auto
    have m0: "?m \<in> set (columns d0)" using True same_on_mem[OF Cons.prems(1) mB] by simp
    have eq: "D \<union> set (keys_of ?m) \<union> {k. \<exists>c'\<in>set cs. mp c' \<in> set (columns d0) \<and> k \<in> set (keys_of (mp c'))}
            = D \<union> {k. \<exists>c'\<in>set (c # cs). mp c' \<in> set (columns d0) \<and> k \<in> set (keys_of (mp c'))}"
      using m0 by auto
    from Cons.IH[OF s1 w1 D1 cs] True show ?thesis
      unfolding eq by simp
  next
    case False
    then have m0: "?m \<notin> set (columns d0)" using same_on_mem[OF Cons.prems(1) mB] by simp
    have eq: "{k. \<exists>c'\<in>set cs. mp c' \<in> set (columns d0) \<and> k \<in> set (keys_of (mp c'))}
            = {k. \<exists>c'\<in>set (c # cs). mp c' \<in> set (columns d0) \<and> k \<in> set (keys_of (mp c'))}"
      using m0 by auto
    from Cons.IH[OF Cons.prems(1,2,3) cs] False show ?thesis
      unfolding eq by simp
  qed
qed

text \<open>The loop run on the input frame: every derived column of a present base column is written.\<close>

lemma column_loop_written:
  fixes vf :: "'k \<Rightarrow> column \<Rightarrow> column"
  assumes inj: "\<forall>k\<in>K. \<forall>k'\<in>K. nm k = nm k' \<longrightarrow> k = k'"
    and nocoll: "\<forall>k\<in>K. nm k \<notin> B"
    and bases: "\<forall>k\<in>K. bs k \<in> B"
    and keys: "\<forall>c\<in>set cs. mp c \<in> B \<and> set (keys_of (mp c)) \<subseteq> K"
    and c: "c \<in> set cs" "mp c \<in> set (columns d0)" "k \<in> set (keys_of (mp c))"
  defines "d' \<equiv> fold (\<lambda>col d. let mapped_col = mp col in
                 if mapped_col \<in> set (columns d)
                 then write_keys nm bs vf (keys_of mapped_col) d
                 else d) cs d0"
  shows "map_of d' (nm k) = Some (vf k (get_col d0 (bs k)))"
    and "\<forall>b\<in>B. map_of d' b = map_of d0 b"
proof -
  have w0: "written nm bs vf {} d0 d0" by (simp add: written_def)
  from column_loop_inv[where C="set cs" and D="{}" and d=d0 and ?d0.0=d0 and cs=cs,
         OF inj nocoll bases keys same_on_refl w0]
  have "same_on B d' d0"
    and "written nm bs vf {k. \<exists>c\<in>set cs. mp c \<in> set (columns d0) \<and> k \<in> set (keys_of (mp c))} d' d0"
    by (simp_all add: d'_def Let_def)
  then show "map_of d' (nm k) = Some (vf k (get_col d0 (bs k)))" and "\<forall>b\<in>B. map_of d' b = map_of d0 b"
    using c unfolding written_def same_on_def by auto
qed

section \<open>Deriving columns in a frame with distinct labels\<close>

lemma filter_label_distinct:
  "distinct (map fst df) \<Longrightarrow> map_of df n = Some c \<Longrightarrow> filter (\<lambda>(k, c). k = n) df = [(n, c)]"
proof (induction df)
  case Nil
  then show ?case by simp
next
  case (Cons p df)
  obtain k v where p: "p = (k, v)" by (cases p)
  show ?case
  proof (cases "k = n")
    case True
    with Cons.prems p have "n \<notin> fst ` set df" and "v = c" by auto
    then have "filter (\<lambda>(k, c). k = n) df = []" by (force simp: filter_empty_conv)
    with True p \<open>v = c\<close> show ?thesis by simp
  next
    case False
    with Cons p show ?thesis by simp
  qed
qed

lemma read_col_distinct:
  assumes "distinct (columns df)" and "n \<in> set (columns df)"
  shows "read_col df n = Inr (get_col df n)"
proof -
  from assms(2) obtain c where c: "map_of df n = Some c"
    by (auto simp: mem_columns_iff)
  from filter_label_distinct[OF _ c] assms(1)
  have "filter (\<lambda>(k, c). k = n) df = [(n, c)]" by (simp add: columns_def)
  with c show ?thesis by (simp add: read_col_def get_col_def)
qed

lemma derive_col_distinct:
  assumes "distinct (columns df)" and "b \<in> set (columns df)"
  shows "derive_col df n f b = Inr (set_col df n (f (get_col df b)))"
  by (simp add: derive_col_def read_col_distinct[OF assms])

lemma distinct_set_col: "distinct (columns df) \<Longrightarrow> distinct (columns (set_col df n v))"
  by (simp add: columns_set_col_list)

lemma distinct_write_keys:
  "distinct (columns d) \<Longrightarrow> distinct (columns (write_keys nm bs vf ks d))"
  unfolding write_keys_def
  by (induction ks arbitrary: d) (auto simp: distinct_set_col)

lemma columns_write_keys:
  "set (columns (write_keys nm bs vf ks d)) = set (columns d) \<union> nm ` set ks"
  unfolding write_keys_def
  by (induction ks arbitrary: d) (auto simp: columns_set_col)

lemma fold_err_derive:
  "distinct (columns d) \<Longrightarrow> \<forall>k\<in>set ks. bs k \<in> set (columns d) \<Longrightarrow>
   fold_err (\<lambda>k d. derive_col d (nm k) (vf k) (bs k)) ks d = Inr (write_keys nm bs vf ks d)"
proof (induction ks arbitrary: d)
  case Nil
  then show ?case by (simp add: write_keys_def)
next
  case (Cons k ks)
  let ?d1 = "set_col d (nm k) (vf k (get_col d (bs k)))"
  have 1: "derive_col d (nm k) (vf k) (bs k) = Inr ?d1"
    using Cons.prems by (simp add: derive_col_distinct)
  have 2: "distinct (columns ?d1)" using Cons.prems(1) by (rule distinct_set_col)
  have 3: "\<forall>k\<in>set ks. bs k \<in> set (columns ?d1)"
    using Cons.prems(2) by (simp add: columns_set_col)
  from Cons.IH[OF 2 3] show ?case by (simp add: 1 write_keys_def)
qed

text \<open>A loop whose body returns under an invariant that it keeps.\<close>

lemma fold_err_inv:
  assumes "\<And>x d. I d \<Longrightarrow> x \<in> set xs \<Longrightarrow> f x d = Inr (g x d) \<and> I (g x d)" and "I d"
  shows "fold_err f xs d = Inr (fold g xs d) \<and> I (fold g xs d)"
  using assms
proof (induction xs arbitrary: d)
  case Nil
  then show ?case by simp
next
  case (Cons x xs)
  from Cons.prems(1)[OF Cons.prems(2), of x]
  have 1: "f x d = Inr (g x d)" and 2: "I (g x d)" by simp_all
  have "\<And>y d. I d \<Longrightarrow> y \<in> set xs \<Longrightarrow> f y d = Inr (g y d) \<and> I (g y d)"
    using Cons.prems(1) by simp
  from Cons.IH[OF this 2] show ?case by (simp add: 1)
qed

text \<open>
  The loop over the continuous columns, when the statements under the guard are a
  list of derivations from the guarded column.
\<close>

lemma column_loop_returns:
  assumes "\<And>m d. distinct (columns d) \<Longrightarrow> m \<in> set (columns d) \<Longrightarrow>
             body m d = Inr (write_keys nm bs vf (keys_of m) d)"
    and "distinct (columns df)"
  shows "fold_err (\<lambda>col d. let mapped_col = mp col in
                 if mapped_col \<in> set (columns d) then body mapped_col d else Inr d) cs df
         = Inr (fold (\<lambda>col d. let mapped_col = mp col in
                 if mapped_col \<in> set (columns d)
                 then write_keys nm bs vf (keys_of mapped_col) d
                 else d) cs df)"
proof -
  have "fold_err (\<lambda>col d. let mapped_col = mp col in
                 if mapped_col \<in> set (columns d) then body mapped_col d else Inr d) cs df
         = Inr (fold (\<lambda>col d. let mapped_col = mp col in
                 if mapped_col \<in> set (columns d)
                 then write_keys nm bs vf (keys_of mapped_col) d
                 else d) cs df)
        \<and> distinct (columns (fold (\<lambda>col d. let mapped_col = mp col in
                 if mapped_col \<in> set (columns d)
                 then write_keys nm bs vf (keys_of mapped_col) d
                 else d) cs df))"
    by (rule fold_err_inv[where I="\<lambda>d. distinct (columns d)"])
       (auto simp: assms Let_def distinct_write_keys)
  then show ?thesis ..
qed

section \<open>The lag generator\<close>

lemma fold_err_map: "fold_err f (map g xs) d = fold_err (\<lambda>x. f (g x)) xs d"
  by (induction xs arbitrary: d) (simp_all split: sum.splits)

lemma lag_column_loop_write_keys:
  assumes "distinct (columns d)" and "m \<in> set (columns d)"
  shows "lag_column_loop m (zip (map P ls) ls) d =
         Inr (write_keys (\<lambda>(m, l). lag_name m l) fst (\<lambda>(m, l). shift (nat (P l))) (map (Pair m) ls) d)"
proof -
  have "\<forall>k\<in>set (map (Pair m) ls). fst k \<in> set (columns d)" using assms(2) by simp
  from fold_err_derive[OF assms(1) this,
      where nm="\<lambda>(m, l). lag_name m l" and vf="\<lambda>(m, l). shift (nat (P l))"]
  show ?thesis
    by (simp add: lag_column_loop_def zip_map_self fold_err_map)
qed

lemma create_lag_features_fold:
  assumes "sampling_interval_minutes dc \<noteq> 0" and "distinct (columns df)"
  shows "create_lag_features s dc df =
         Inr (fold (\<lambda>col d. let mapped_col = get_mapped_column s col in
                 if mapped_col \<in> set (columns d)
                 then write_keys (\<lambda>(m, l). lag_name m l) fst
                        (\<lambda>(m, l). shift (nat (max 1 (l div (sampling_interval_minutes dc * 60)))))
                        (map (Pair mapped_col) (lag_seconds s)) d
                 else d) (continuous_columns s) df)"
proof -
  let ?P = "\<lambda>l. max 1 (l div (sampling_interval_minutes dc * 60))"
  have "create_lag_features s dc df =
        fold_err (\<lambda>col d. let mapped_col = get_mapped_column s col in
                   if mapped_col \<in> set (columns d)
                   then lag_column_loop mapped_col (zip (map ?P (lag_seconds s)) (lag_seconds s)) d
                   else Inr d) (continuous_columns s) df"
    using assms(1) by (simp add: create_lag_features_def lag_periods_def)
  also have "\<dots> = Inr (fold (\<lambda>col d. let mapped_col = get_mapped_column s col in
                 if mapped_col \<in> set (columns d)
                 then write_keys (\<lambda>(m, l). lag_name m l) fst (\<lambda>(m, l). shift (nat (?P l)))
                        (map (Pair mapped_col) (lag_seconds s)) d
                 else d) (continuous_columns s) df)"
    by (rule column_loop_returns[where keys_of="\<lambda>m. map (Pair m) (lag_seconds s)"])
       (simp_all add: lag_column_loop_write_keys assms(2))
  finally show ?thesis .
qed

lemma create_lag_features_map_of:
  assumes interval: "sampling_interval_minutes dc \<noteq> 0"
    and labels: "distinct (columns df)"
    and nocoll: "\<forall>c\<in>set (continuous_columns s). \<forall>l\<in>set (lag_seconds s).
                   lag_name (get_mapped_column s c) l \<notin> get_mapped_column s ` set (continuous_columns s)"
    and col: "col \<in> set (continuous_columns s)" "get_mapped_column s col \<in> set (columns df)"
    and lag: "lag_sec \<in> set (lag_seconds s)"
  shows "\<exists>df'. create_lag_features s dc df = Inr df' \<and>
           map_of df' (lag_name (get_mapped_column s col) lag_sec)
             = Some (shift (nat (max 1 (lag_sec div (sampling_interval_minutes dc * 60))))
                      (get_col df (get_mapped_column s col)))"
proof -
  let ?P = "\<lambda>l. max 1 (l div (sampling_interval_minutes dc * 60))"
  let ?B = "get_mapped_column s ` set (continuous_columns s)"
  let ?K = "?B \<times> set (lag_seconds s)"
  let ?nm = "\<lambda>(m, l). lag_name m l"
  let ?vf = "\<lambda>(m :: string, l). shift (nat (?P l))"
  let ?keys = "\<lambda>m. map (Pair m) (lag_seconds s)"
  let ?d' = "fold (\<lambda>col d. let mapped_col = get_mapped_column s col in
                 if mapped_col \<in> set (columns d)
                 then write_keys ?nm fst ?vf (?keys mapped_col) d
                 else d) (continuous_columns s) df"
  have run: "create_lag_features s dc df = Inr ?d'"
    by (rule create_lag_features_fold[OF interval labels])
  have inj: "\<forall>k\<in>?K. \<forall>k'\<in>?K. ?nm k = ?nm k' \<longrightarrow> k = k'"
    using lag_name_inj by auto
  have nc: "\<forall>k\<in>?K. ?nm k \<notin> ?B" using nocoll by auto
  have bs: "\<forall>k\<in>?K. fst k \<in> ?B" by auto
  have keys: "\<forall>c\<in>set (continuous_columns s). get_mapped_column s c \<in> ?B
                \<and> set (?keys (get_mapped_column s c)) \<subseteq> ?K" by auto
  have k: "(get_mapped_column s col, lag_sec) \<in> set (?keys (get_mapped_column s col))"
    using lag by simp
  from column_loop_written(1)[where nm="?nm" and bs=fst and vf="?vf" and keys_of="?keys"
        and mp="get_mapped_column s", OF inj nc bs keys col k]
  have "map_of ?d' (lag_name (get_mapped_column s col) lag_sec)
          = Some (shift (nat (?P lag_sec)) (get_col df (get_mapped_column s col)))"
    by simp
  with run show ?thesis by simp
qed

text \<open>
  C2. On a frame whose column labels are pairwise distinct, with a sampling interval
  that is not zero and a schema in which no generated lag name is the mapped name of a
  continuous column, the lag generator returns a frame: it turns each configured lag
  into the period \<open>p = max 1 (lag_sec div sampling_interval)\<close>, the interval being
  \<open>sampling_interval_minutes * 60\<close> seconds, and for every continuous column present in
  the input it stores a column named with the lag in seconds whose row \<open>i\<close> is the
  input column's row \<open>i - p\<close> for \<open>i \<ge> p\<close> and is missing for \<open>i < p\<close>.
\<close>

theorem lag_generator_shifts_by_period:
  assumes "sampling_interval_minutes dc \<noteq> 0"
    and "distinct (columns df)"
    and "\<forall>c\<in>set (continuous_columns s). \<forall>l\<in>set (lag_seconds s).
           lag_name (get_mapped_column s c) l \<notin> get_mapped_column s ` set (continuous_columns s)"
    and "col \<in> set (continuous_columns s)" and "get_mapped_column s col \<in> set (columns df)"
    and "lag_sec \<in> set (lag_seconds s)"
  shows "\<exists>df' lag_col.
           create_lag_features s dc df = Inr df' \<and>
           map_of df' (get_mapped_column s col @ ''_lag_'' @ str_int lag_sec @ ''s'') = Some lag_col \<and>
           (let base_col = get_col df (get_mapped_column s col);
                p = nat (max 1 (lag_sec div (sampling_interval_minutes dc * 60)))
            in length lag_col = length base_col \<and>
               (\<forall>i<length base_col. (p \<le> i \<longrightarrow> lag_col ! i = base_col ! (i - p))
                                   \<and> (i < p \<longrightarrow> lag_col ! i = NaN)))"
proof -
  from create_lag_features_map_of[OF assms]
  obtain df' where "create_lag_features s dc df = Inr df'"
    and "map_of df' (lag_name (get_mapped_column s col) lag_sec)
             = Some (shift (nat (max 1 (lag_sec div (sampling_interval_minutes dc * 60))))
                      (get_col df (get_mapped_column s col)))"
    by blast
  then show ?thesis
    by (simp add: lag_name_def Let_def length_shift shift_nth)
qed

theorem lag_generator_shifts_by_period_witness:
  "\<exists>df'. create_lag_features schema_A data_A frame_A = Inr df' \<and>
         map_of df' ''temperature_lag_300s'' = Some [NaN, Num 70, Num 72]"
proof -
  have h1: "sampling_interval_minutes data_A \<noteq> 0" by (simp add: data_A_def)
  have h2: "\<forall>c\<in>set (continuous_columns schema_A). \<forall>l\<in>set (lag_seconds schema_A).
      lag_name (get_mapped_column schema_A c) l
        \<notin> get_mapped_column schema_A ` set (continuous_columns schema_A)"
    by (simp add: schema_A_def get_mapped_column_def lag_name_def)
  have hd: "distinct (columns frame_A)" by (simp add: frame_A_def columns_def)
  have h3: "''temperature'' \<in> set (continuous_columns schema_A)" by (simp add: schema_A_def)
  have h4: "get_mapped_column schema_A ''temperature'' \<in> set (columns frame_A)"
    by (simp add: schema_A_def get_mapped_column_def frame_A_def columns_def)
  have h5: "300 \<in> set (lag_seconds schema_A)" by (simp add: schema_A_def)
  have m: "get_mapped_column schema_A ''temperature'' = ''temperature''"
    by (simp add: schema_A_def get_mapped_column_def)
  have n: "str_int 300 = ''300''"
    by (simp add: str_int_def str_nat.simps[of 300] str_nat.simps[of 30] str_nat.simps[of 3] digit_char_def)
  have b: "get_col frame_A ''temperature'' = [Num 70, Num 72, Num 75]"
    by (simp add: get_col_def frame_A_def)
  have p: "nat (max 1 (300 div (sampling_interval_minutes data_A * 60))) = 1"
    by (simp add: data_A_def)
  from lag_generator_shifts_by_period[OF h1 hd h2 h3 h4 h5]
  obtain df' lag_col where r: "create_lag_features schema_A data_A frame_A = Inr df'"
    and l: "map_of df' (''temperature'' @ ''_lag_'' @ ''300'' @ ''s'') = Some lag_col"
    and len: "length lag_col = length [Num 70, Num 72, Num 75 :: cell]"
    and v: "\<forall>i<length [Num 70, Num 72, Num 75 :: cell].
              (1 \<le> i \<longrightarrow> lag_col ! i = [Num 70, Num 72, Num 75] ! (i - 1))
              \<and> (i < 1 \<longrightarrow> lag_col ! i = NaN)"
    unfolding m n b p Let_def by blast
  from v have vi: "(1 \<le> i \<longrightarrow> lag_col ! i = [Num 70, Num 72, Num 75] ! (i - 1))
                   \<and> (i < 1 \<longrightarrow> lag_col ! i = NaN)" if "i < 3" for i
    using that by (auto simp: numeral_3_eq_3)
  from vi[of 0] have "lag_col ! 0 = NaN" by simp
  moreover from vi[of 1] have "lag_col ! 1 = Num 70" by simp
  moreover from vi[of 2] have "lag_col ! 2 = Num 72" by simp
  moreover from len have "length lag_col = 3" by simp
  ultimately have "lag_col = [NaN, Num 70, Num 72]"
    by (simp add: list_eq_iff_nth_eq less_Suc_eq numeral_3_eq_3 numeral_2_eq_2)
  with r l show ?thesis by simp
qed

text \<open>
  Outside these conditions the generator raises or shifts another column than the
  input one: a sampling interval of zero raises ZeroDivisionError at the division; two
  columns with the label of a declared column raise ValueError at the first
  assignment; and when \<open>x_lag_300s\<close> is itself declared, it is overwritten with the lag
  of \<open>x\<close> before its own lag is taken, so that \<open>x_lag_300s_lag_300s\<close> at row 1 is missing
  where the input column holds 10 at row 0.
\<close>

lemma str_int_300: "str_int 300 = ''300''"
  by (simp add: str_int_def str_nat.simps[of 300] str_nat.simps[of 30] str_nat.simps[of 3] digit_char_def)

theorem lag_raises_or_shifts_overwritten_column:
  "create_lag_features schema_A data_zero frame_A = Inl ZeroDivisionError \<and>
   create_lag_features schema_A data_A frame_repeated = Inl ValueError \<and>
   get_col frame_lag_clash ''x_lag_300s'' = [Num 10, Num 20, Num 30] \<and>
   create_lag_features schema_lag_clash data_A frame_lag_clash
     = Inr [(''x'', [Num 1, Num 2, Num 3]),
            (''x_lag_300s'', [NaN, Num 1, Num 2]),
            (''x_lag_300s_lag_300s'', [NaN, NaN, Num 1])]"
proof (intro conjI)
  show "create_lag_features schema_A data_zero frame_A = Inl ZeroDivisionError"
    by (simp add: create_lag_features_def lag_periods_def schema_A_def data_zero_def data_A_def)
  show "create_lag_features schema_A data_A frame_repeated = Inl ValueError"
    by (simp add: create_lag_features_def lag_periods_def schema_A_def data_A_def
        frame_repeated_def get_mapped_column_def columns_def lag_column_loop_def
        derive_col_def read_col_def)
  show "get_col frame_lag_clash ''x_lag_300s'' = [Num 10, Num 20, Num 30]"
    by (simp add: get_col_def frame_lag_clash_def)
  show "create_lag_features schema_lag_clash data_A frame_lag_clash
     = Inr [(''x'', [Num 1, Num 2, Num 3]),
            (''x_lag_300s'', [NaN, Num 1, Num 2]),
            (''x_lag_300s_lag_300s'', [NaN, NaN, Num 1])]"
    by (simp add: create_lag_features_def lag_periods_def schema_lag_clash_def data_A_def
        frame_lag_clash_def get_mapped_column_def columns_def lag_column_loop_def
        derive_col_def read_col_def set_col_def shift_def lag_name_def str_int_300)
qed

text \<open>The run of scenario A, evaluated.\<close>

lemma lag_scenario_A:
  "create_lag_features schema_A data_A frame_A
     = Inr [(''temperature'', [Num 70, Num 72, Num 75]),
            (''temperature_lag_300s'', [NaN, Num 70, Num 72])]"
  by (simp add: create_lag_features_def lag_periods_def schema_A_def data_A_def frame_A_def
      get_mapped_column_def columns_def lag_column_loop_def derive_col_def read_col_def
      set_col_def shift_def lag_name_def str_int_300)

section \<open>The rolling generator\<close>

lemma write_keys_append:
  "write_keys nm bs vf (xs @ ys) d = write_keys nm bs vf ys (write_keys nm bs vf xs d)"
  by (simp add: write_keys_def)

lemma rolling_window_step_fold_err:
  "1 \<le> w \<Longrightarrow>
   rolling_window_step m w d =
     fold_err (\<lambda>k d. derive_col d ((\<lambda>(st, m, w). rolling_name st m w) k)
                         ((\<lambda>(st, m, w). rolling_apply (stat_fn st) (nat w)) k)
                         ((\<lambda>(st, m, w). m) k))
       (map (\<lambda>st. (st, m, w)) rolling_stats) d"
  by (simp add: rolling_window_step_def rolling_stats_def stat_fn_def Let_def and_then_def
      split: sum.splits)

lemma rolling_window_step_write_keys:
  assumes "1 \<le> w" and "distinct (columns d)" and "m \<in> set (columns d)"
  shows "rolling_window_step m w d =
         Inr (write_keys (\<lambda>(st, m, w). rolling_name st m w) (\<lambda>(st, m, w). m)
                (\<lambda>(st, m, w). rolling_apply (stat_fn st) (nat w))
                (map (\<lambda>st. (st, m, w)) rolling_stats) d)"
proof -
  have "\<forall>k\<in>set (map (\<lambda>st. (st, m, w)) rolling_stats). (\<lambda>(st, m, w). m) k \<in> set (columns d)"
    using assms(3) by simp
  from fold_err_derive[OF assms(2) this] show ?thesis
    by (simp only: rolling_window_step_fold_err[OF assms(1)])
qed

lemma rolling_window_loop_write_keys:
  assumes "\<forall>w\<in>set ws. 1 \<le> w" and "distinct (columns d)" and "m \<in> set (columns d)"
  shows "fold_err (rolling_window_step m) ws d =
         Inr (write_keys (\<lambda>(st, m, w). rolling_name st m w) (\<lambda>(st, m, w). m)
                (\<lambda>(st, m, w). rolling_apply (stat_fn st) (nat w))
                (rolling_keys ws m) d)"
  using assms
proof (induction ws arbitrary: d)
  case Nil
  then show ?case by (simp add: rolling_keys_def write_keys_def)
next
  case (Cons w ws)
  then have w: "1 \<le> w" and ws: "\<forall>w\<in>set ws. 1 \<le> w" by auto
  let ?d1 = "write_keys (\<lambda>(st, m, w). rolling_name st m w) (\<lambda>(st, m, w). m)
                (\<lambda>(st, m, w). rolling_apply (stat_fn st) (nat w))
                (map (\<lambda>st. (st, m, w)) rolling_stats) d"
  have k: "rolling_keys (w # ws) m = map (\<lambda>st. (st, m, w)) rolling_stats @ rolling_keys ws m"
    by (simp add: rolling_keys_def)
  have d1: "distinct (columns ?d1)" using Cons.prems(2) by (rule distinct_write_keys)
  have m1: "m \<in> set (columns ?d1)" using Cons.prems(3) by (simp add: columns_write_keys)
  show ?case
    unfolding k write_keys_append
    by (simp add: rolling_window_step_write_keys[OF w Cons.prems(2,3)] Cons.IH[OF ws d1 m1])
qed

lemma create_rolling_features_fold:
  assumes "\<forall>w\<in>set (rolling_windows s). 1 \<le> w" and "distinct (columns df)"
  shows "create_rolling_features s df =
         Inr (fold (\<lambda>col d. let mapped_col = get_mapped_column s col in
                 if mapped_col \<in> set (columns d)
                 then write_keys (\<lambda>(st, m, w). rolling_name st m w) (\<lambda>(st, m, w). m)
                        (\<lambda>(st, m, w). rolling_apply (stat_fn st) (nat w))
                        (rolling_keys (rolling_windows s) mapped_col) d
                 else d) (continuous_columns s) df)"
  unfolding create_rolling_features_def
  by (rule column_loop_returns[where keys_of="rolling_keys (rolling_windows s)"])
     (simp_all add: rolling_window_loop_write_keys assms)

lemma rolling_stats_no_underscore: "st \<in> set rolling_stats \<Longrightarrow> CHR ''_'' \<notin> set st"
  by (auto simp: rolling_stats_def)

lemma create_rolling_features_map_of:
  assumes windows: "\<forall>w\<in>set (rolling_windows s). 1 \<le> w"
    and labels: "distinct (columns df)"
    and nocoll: "\<forall>c\<in>set (continuous_columns s). \<forall>w\<in>set (rolling_windows s). \<forall>st\<in>set rolling_stats.
                   rolling_name st (get_mapped_column s c) w
                     \<notin> get_mapped_column s ` set (continuous_columns s)"
    and col: "col \<in> set (continuous_columns s)" "get_mapped_column s col \<in> set (columns df)"
    and w: "w \<in> set (rolling_windows s)" and st: "st \<in> set rolling_stats"
  shows "\<exists>df'. create_rolling_features s df = Inr df' \<and>
           map_of df' (rolling_name st (get_mapped_column s col) w)
             = Some (rolling_apply (stat_fn st) (nat w) (get_col df (get_mapped_column s col))) \<and>
           (\<forall>b\<in>get_mapped_column s ` set (continuous_columns s). map_of df' b = map_of df b)"
proof -
  let ?B = "get_mapped_column s ` set (continuous_columns s)"
  let ?K = "set rolling_stats \<times> ?B \<times> set (rolling_windows s)"
  let ?nm = "\<lambda>(st, m, w). rolling_name st m w"
  let ?bs = "\<lambda>(st :: string, m :: string, w :: int). m"
  let ?vf = "\<lambda>(st, m :: string, w). rolling_apply (stat_fn st) (nat w)"
  let ?keys = "rolling_keys (rolling_windows s)"
  let ?d' = "fold (\<lambda>col d. let mapped_col = get_mapped_column s col in
                 if mapped_col \<in> set (columns d)
                 then write_keys ?nm ?bs ?vf (?keys mapped_col) d
                 else d) (continuous_columns s) df"
  have run: "create_rolling_features s df = Inr ?d'"
    by (rule create_rolling_features_fold[OF windows labels])
  have inj: "\<forall>k\<in>?K. \<forall>k'\<in>?K. ?nm k = ?nm k' \<longrightarrow> k = k'"
  proof (intro ballI impI)
    fix k k' assume k: "k \<in> ?K" and k': "k' \<in> ?K" and eq: "?nm k = ?nm k'"
    obtain st1 m1 w1 where k1: "k = (st1, m1, w1)" by (cases k) auto
    obtain st2 m2 w2 where k2: "k' = (st2, m2, w2)" by (cases k') auto
    from k k' k1 k2 have "CHR ''_'' \<notin> set st1" "CHR ''_'' \<notin> set st2"
      using rolling_stats_no_underscore by simp_all
    moreover from eq k1 k2 have "rolling_name st1 m1 w1 = rolling_name st2 m2 w2" by simp
    ultimately have "st1 = st2 \<and> m1 = m2 \<and> w1 = w2" using rolling_name_inj by blast
    with k1 k2 show "k = k'" by simp
  qed
  have nc: "\<forall>k\<in>?K. ?nm k \<notin> ?B"
  proof
    fix k assume k: "k \<in> ?K"
    obtain st1 m1 w1 where k1: "k = (st1, m1, w1)" by (cases k) auto
    with k obtain c where "c \<in> set (continuous_columns s)" "m1 = get_mapped_column s c"
      "w1 \<in> set (rolling_windows s)" "st1 \<in> set rolling_stats" by auto
    with nocoll have "rolling_name st1 m1 w1 \<notin> ?B" by blast
    with k1 show "?nm k \<notin> ?B" by simp
  qed
  have bs: "\<forall>k\<in>?K. ?bs k \<in> ?B" by (simp add: split_beta mem_Times_iff)
  have keyset: "set (?keys m) = set rolling_stats \<times> {m} \<times> set (rolling_windows s)" for m
    unfolding rolling_keys_def by auto
  have keys: "\<forall>c\<in>set (continuous_columns s). get_mapped_column s c \<in> ?B
                \<and> set (?keys (get_mapped_column s c)) \<subseteq> ?K"
    unfolding keyset by blast
  have k: "(st, get_mapped_column s col, w) \<in> set (?keys (get_mapped_column s col))"
    unfolding keyset using w st by blast
  from column_loop_written[where nm="?nm" and bs="?bs" and vf="?vf" and keys_of="?keys"
        and mp="get_mapped_column s", OF inj nc bs keys col k]
  have "map_of ?d' (rolling_name st (get_mapped_column s col) w)
          = Some (rolling_apply (stat_fn st) (nat w) (get_col df (get_mapped_column s col)))"
    and "\<forall>b\<in>?B. map_of ?d' b = map_of df b"
    by simp_all
  with run show ?thesis by simp
qed

lemma length_rolling_apply: "length (rolling_apply f w xs) = length xs"
  by (simp add: rolling_apply_def)

lemma rolling_apply_nth:
  "i < length xs \<Longrightarrow> rolling_apply f w xs ! i = f (observations (window_at w i xs))"
  by (simp add: rolling_apply_def)

lemma window_at_first: "1 \<le> w \<Longrightarrow> window_at w 0 xs = take 1 xs"
  by (simp add: window_at_def)

lemma observations_single: "observations [c] = (case c of Num x \<Rightarrow> [x] | _ \<Rightarrow> [])"
  by (simp add: observations_def)

lemma length_observations: "length (observations win) \<le> length win"
  unfolding observations_def by (induction win) (auto split: cell.splits)

text \<open>
  C5. On a frame whose column labels are pairwise distinct, with windows of at least
  one sample and a schema in which no generated rolling name is the mapped name of a
  continuous column, the rolling generator returns a frame that holds, for every
  continuous column present in the input and every configured window, a standard
  deviation that is missing at each row whose trailing window holds fewer than two
  samples, in particular at the first row; mean, minimum and maximum at the first row
  are the value of that row, the only sample of its window, when the row holds a
  finite value.
\<close>

theorem rolling_std_missing_below_two_samples:
  assumes "\<forall>w\<in>set (rolling_windows s). 1 \<le> w"
    and "distinct (columns df)"
    and "\<forall>c\<in>set (continuous_columns s). \<forall>w\<in>set (rolling_windows s).
           \<forall>st\<in>{''mean'', ''std'', ''min'', ''max'', ''median''}.
             get_mapped_column s c @ ''_rolling_'' @ st @ ''_'' @ str_int w
               \<notin> get_mapped_column s ` set (continuous_columns s)"
    and "col \<in> set (continuous_columns s)" and "get_mapped_column s col \<in> set (columns df)"
    and "window \<in> set (rolling_windows s)"
  shows "\<exists>df' mean_col std_col min_col max_col.
           create_rolling_features s df = Inr df' \<and>
           map_of df' (get_mapped_column s col @ ''_rolling_mean_'' @ str_int window) = Some mean_col \<and>
           map_of df' (get_mapped_column s col @ ''_rolling_std_'' @ str_int window) = Some std_col \<and>
           map_of df' (get_mapped_column s col @ ''_rolling_min_'' @ str_int window) = Some min_col \<and>
           map_of df' (get_mapped_column s col @ ''_rolling_max_'' @ str_int window) = Some max_col \<and>
           (let base_col = get_col df (get_mapped_column s col) in
              length std_col = length base_col \<and>
              (\<forall>i<length base_col.
                 length (observations (window_at (nat window) i base_col)) < 2 \<longrightarrow> std_col ! i = NaN) \<and>
              (base_col \<noteq> [] \<longrightarrow> std_col ! 0 = NaN) \<and>
              (\<forall>x. base_col \<noteq> [] \<and> base_col ! 0 = Num x \<longrightarrow>
                 mean_col ! 0 = Num x \<and> min_col ! 0 = Num x \<and> max_col ! 0 = Num x))"
proof -
  let ?m = "get_mapped_column s col"
  let ?base = "get_col df ?m"
  let ?w = "nat window"
  have w1: "1 \<le> ?w" using assms(1,6) by auto
  have nocoll: "\<forall>c\<in>set (continuous_columns s). \<forall>w\<in>set (rolling_windows s). \<forall>st\<in>set rolling_stats.
                   rolling_name st (get_mapped_column s c) w
                     \<notin> get_mapped_column s ` set (continuous_columns s)"
    using assms(3) by (simp add: rolling_stats_def rolling_name_def)
  note R = create_rolling_features_map_of[OF assms(1,2) nocoll assms(4,5,6)]
  obtain df' where run: "create_rolling_features s df = Inr df'"
    using R[of "''mean''"] by (auto simp: rolling_stats_def)
  have col: "map_of df' (rolling_name st ?m window) = Some (rolling_apply (stat_fn st) ?w ?base)"
    if "st \<in> set rolling_stats" for st
    using R[OF that] run by auto
  have mean: "map_of df' (?m @ ''_rolling_mean_'' @ str_int window) = Some (rolling_apply stat_mean ?w ?base)"
    using col[of "''mean''"] by (simp add: rolling_stats_def rolling_name_def stat_fn_def)
  have std: "map_of df' (?m @ ''_rolling_std_'' @ str_int window) = Some (rolling_apply stat_std ?w ?base)"
    using col[of "''std''"] by (simp add: rolling_stats_def rolling_name_def stat_fn_def)
  have min: "map_of df' (?m @ ''_rolling_min_'' @ str_int window) = Some (rolling_apply stat_min ?w ?base)"
    using col[of "''min''"] by (simp add: rolling_stats_def rolling_name_def stat_fn_def)
  have max: "map_of df' (?m @ ''_rolling_max_'' @ str_int window) = Some (rolling_apply stat_max ?w ?base)"
    using col[of "''max''"] by (simp add: rolling_stats_def rolling_name_def stat_fn_def)
  have few: "rolling_apply stat_std ?w ?base ! i = NaN"
    if "i < length ?base" "length (observations (window_at ?w i ?base)) < 2" for i
    using that by (simp add: rolling_apply_nth stat_std_def)
  have first_obs: "length (observations (window_at ?w 0 ?base)) < 2"
    using length_observations[of "take 1 ?base"] by (simp add: window_at_first[OF w1])
  have std0: "?base \<noteq> [] \<Longrightarrow> rolling_apply stat_std ?w ?base ! 0 = NaN"
    using few[of 0] first_obs by simp
  have first: "rolling_apply stat_mean ?w ?base ! 0 = Num x \<and>
               rolling_apply stat_min ?w ?base ! 0 = Num x \<and>
               rolling_apply stat_max ?w ?base ! 0 = Num x"
    if "?base \<noteq> []" "?base ! 0 = Num x" for x
  proof -
    from that have "take 1 ?base = [Num x]" by (cases ?base) auto
    then have "observations (window_at ?w 0 ?base) = [x]"
      by (simp add: window_at_first[OF w1] observations_single)
    with that(1) show ?thesis
      by (simp add: rolling_apply_nth stat_mean_def stat_min_def stat_max_def mean_def)
  qed
  show ?thesis
    using run mean std min max few std0 first
    by (simp add: Let_def length_rolling_apply)
qed

theorem rolling_std_missing_below_two_samples_witness:
  "\<exists>df' mean_col std_col min_col max_col.
      create_rolling_features schema_A frame_A = Inr df' \<and>
      map_of df' (''temperature_rolling_mean_'' @ str_int 5) = Some mean_col \<and>
      map_of df' (''temperature_rolling_std_'' @ str_int 5) = Some std_col \<and>
      map_of df' (''temperature_rolling_min_'' @ str_int 5) = Some min_col \<and>
      map_of df' (''temperature_rolling_max_'' @ str_int 5) = Some max_col \<and>
      length std_col = 3 \<and> std_col ! 0 = NaN \<and>
      mean_col ! 0 = Num 70 \<and> min_col ! 0 = Num 70 \<and> max_col ! 0 = Num 70"
proof -
  have h1: "\<forall>w\<in>set (rolling_windows schema_A). 1 \<le> w" by (simp add: schema_A_def)
  have h2: "\<forall>c\<in>set (continuous_columns schema_A). \<forall>w\<in>set (rolling_windows schema_A).
      \<forall>st\<in>{''mean'', ''std'', ''min'', ''max'', ''median''}.
        get_mapped_column schema_A c @ ''_rolling_'' @ st @ ''_'' @ str_int w
          \<notin> get_mapped_column schema_A ` set (continuous_columns schema_A)"
    by (simp add: schema_A_def get_mapped_column_def)
  have hd: "distinct (columns frame_A)" by (simp add: frame_A_def columns_def)
  have h3: "''temperature'' \<in> set (continuous_columns schema_A)" by (simp add: schema_A_def)
  have h4: "get_mapped_column schema_A ''temperature'' \<in> set (columns frame_A)"
    by (simp add: schema_A_def get_mapped_column_def frame_A_def columns_def)
  have h5: "5 \<in> set (rolling_windows schema_A)" by (simp add: schema_A_def)
  have m: "get_mapped_column schema_A ''temperature'' = ''temperature''"
    by (simp add: schema_A_def get_mapped_column_def)
  have b: "get_col frame_A ''temperature'' = [Num 70, Num 72, Num 75]"
    by (simp add: get_col_def frame_A_def)
  from rolling_std_missing_below_two_samples[OF h1 hd h2 h3 h4 h5]
  obtain df' mean_col std_col min_col max_col where
        r: "create_rolling_features schema_A frame_A = Inr df'"
    and c1: "map_of df' (''temperature'' @ ''_rolling_mean_'' @ str_int 5) = Some mean_col"
    and c2: "map_of df' (''temperature'' @ ''_rolling_std_'' @ str_int 5) = Some std_col"
    and c3: "map_of df' (''temperature'' @ ''_rolling_min_'' @ str_int 5) = Some min_col"
    and c4: "map_of df' (''temperature'' @ ''_rolling_max_'' @ str_int 5) = Some max_col"
    and len: "length std_col = length [Num 70, Num 72, Num 75 :: cell]"
    and s0: "[Num 70, Num 72, Num 75 :: cell] \<noteq> [] \<longrightarrow> std_col ! 0 = NaN"
    and f0: "\<forall>x. [Num 70, Num 72, Num 75] \<noteq> [] \<and> [Num 70, Num 72, Num 75] ! 0 = Num x \<longrightarrow>
                 mean_col ! 0 = Num x \<and> min_col ! 0 = Num x \<and> max_col ! 0 = Num x"
    unfolding m b Let_def by blast
  from f0 have "mean_col ! 0 = Num 70 \<and> min_col ! 0 = Num 70 \<and> max_col ! 0 = Num 70" by simp
  moreover from s0 have "std_col ! 0 = NaN" by simp
  moreover from len have "length std_col = 3" by simp
  ultimately show ?thesis using r c1 c2 c3 c4 by auto
qed

text \<open>
  Outside these conditions the generator raises or aggregates another column than the
  input one: a window of zero samples raises ValueError, as do two columns with the
  label of a declared column; a first row without value has no mean; and when
  \<open>x_rolling_mean_2\<close> is itself declared, it is overwritten with the rolling mean of \<open>x\<close>
  before its own aggregates are taken, so that its standard deviation at row 1 is a
  number although the input column holds no sample at all.
\<close>

lemma str_int_2: "str_int 2 = ''2''"
  by (simp add: str_int_def str_nat.simps[of 2] digit_char_def)

lemma str_int_5: "str_int 5 = ''5''"
  by (simp add: str_int_def str_nat.simps[of 5] digit_char_def)

lemma upt_0_2: "[0..<2] = [0, 1]"
  by (simp add: upt_rec numeral_2_eq_2)

theorem rolling_raises_or_aggregates_overwritten_column:
  "create_rolling_features schema_window_zero frame_A = Inl ValueError \<and>
   create_rolling_features schema_A frame_repeated = Inl ValueError \<and>
   (\<exists>df'. create_rolling_features schema_A frame_late = Inr df' \<and>
          map_of df' ''temperature_rolling_mean_5'' = Some [NaN, Num 72]) \<and>
   get_col frame_rolling_clash ''x_rolling_mean_2'' = [NaN, NaN] \<and>
   (\<exists>df' std_col x.
      create_rolling_features schema_rolling_clash frame_rolling_clash = Inr df' \<and>
      map_of df' ''x_rolling_mean_2_rolling_std_2'' = Some std_col \<and> std_col ! 1 = Num x)"
proof (intro conjI)
  show "create_rolling_features schema_window_zero frame_A = Inl ValueError"
    by (simp add: create_rolling_features_def schema_window_zero_def schema_A_def frame_A_def
        get_mapped_column_def columns_def rolling_window_step_def)
  show "create_rolling_features schema_A frame_repeated = Inl ValueError"
    by (simp add: create_rolling_features_def schema_A_def frame_repeated_def
        get_mapped_column_def columns_def rolling_window_step_def derive_col_def read_col_def
        and_then_def)
  show "\<exists>df'. create_rolling_features schema_A frame_late = Inr df' \<and>
          map_of df' ''temperature_rolling_mean_5'' = Some [NaN, Num 72]"
    by (simp add: create_rolling_features_def schema_A_def frame_late_def
        get_mapped_column_def columns_def rolling_window_step_def derive_col_def read_col_def
        and_then_def set_col_def rolling_name_def str_int_5 rolling_apply_def upt_0_2
        window_at_def observations_def stat_mean_def stat_std_def stat_min_def stat_max_def
        stat_median_def mean_def Let_def)
  show "get_col frame_rolling_clash ''x_rolling_mean_2'' = [NaN, NaN]"
    by (simp add: get_col_def frame_rolling_clash_def)
  show "\<exists>df' std_col x.
      create_rolling_features schema_rolling_clash frame_rolling_clash = Inr df' \<and>
      map_of df' ''x_rolling_mean_2_rolling_std_2'' = Some std_col \<and> std_col ! 1 = Num x"
    by (simp add: create_rolling_features_def schema_rolling_clash_def frame_rolling_clash_def
        get_mapped_column_def columns_def rolling_window_step_def derive_col_def read_col_def
        and_then_def set_col_def rolling_name_def str_int_2 rolling_apply_def upt_0_2
        window_at_def observations_def stat_mean_def stat_std_def stat_min_def stat_max_def
        stat_median_def mean_def Let_def)
qed

section \<open>The rate-of-change generator\<close>

lemma roc_column_step_write_keys:
  assumes "distinct (columns d)" and "m \<in> set (columns d)"
  shows "roc_column_step m d =
         Inr (write_keys (\<lambda>(sfx, m). m @ sfx) snd (\<lambda>(sfx, m). roc_fn sfx)
                (map (\<lambda>sfx. (sfx, m)) roc_suffixes) d)"
  using assms
  by (simp add: roc_column_step_def and_then_def derive_col_distinct distinct_set_col
      columns_set_col write_keys_def roc_suffixes_def roc_fn_def get_col_set_col
      roc_name_def acc_name_def pct_name_def)

lemma create_rate_of_change_features_fold:
  assumes "distinct (columns df)"
  shows "create_rate_of_change_features s df =
         Inr (fold (\<lambda>col d. let mapped_col = get_mapped_column s col in
                 if mapped_col \<in> set (columns d)
                 then write_keys (\<lambda>(sfx, m). m @ sfx) snd (\<lambda>(sfx, m). roc_fn sfx)
                        (map (\<lambda>sfx. (sfx, mapped_col)) roc_suffixes) d
                 else d) (continuous_columns s) df)"
  unfolding create_rate_of_change_features_def
  by (rule column_loop_returns[where keys_of="\<lambda>m. map (\<lambda>sfx. (sfx, m)) roc_suffixes"])
     (simp_all add: roc_column_step_write_keys assms)

lemma roc_suffix_inj:
  assumes "m @ sfx = m' @ sfx'" "sfx \<in> set roc_suffixes" "sfx' \<in> set roc_suffixes"
  shows "sfx = sfx' \<and> m = m'"
proof -
  have "last (m @ sfx) = last (m' @ sfx')" using assms(1) by simp
  then have "sfx = sfx'" using assms(2,3) by (auto simp: roc_suffixes_def)
  with assms(1) show ?thesis by simp
qed

lemma create_rate_of_change_features_map_of:
  assumes labels: "distinct (columns df)"
    and nocoll: "\<forall>c\<in>set (continuous_columns s). \<forall>sfx\<in>set roc_suffixes.
                     get_mapped_column s c @ sfx \<notin> get_mapped_column s ` set (continuous_columns s)"
    and col: "col \<in> set (continuous_columns s)" "get_mapped_column s col \<in> set (columns df)"
    and sfx: "sfx \<in> set roc_suffixes"
  shows "\<exists>df'. create_rate_of_change_features s df = Inr df' \<and>
           map_of df' (get_mapped_column s col @ sfx)
             = Some (roc_fn sfx (get_col df (get_mapped_column s col)))"
proof -
  let ?B = "get_mapped_column s ` set (continuous_columns s)"
  let ?K = "set roc_suffixes \<times> ?B"
  let ?nm = "\<lambda>(sfx :: string, m :: string). m @ sfx"
  let ?bs = "snd :: string \<times> string \<Rightarrow> string"
  let ?vf = "\<lambda>(sfx, m :: string). roc_fn sfx"
  let ?keys = "\<lambda>m :: string. map (\<lambda>sfx. (sfx, m)) roc_suffixes"
  let ?d' = "fold (\<lambda>col d. let mapped_col = get_mapped_column s col in
                 if mapped_col \<in> set (columns d)
                 then write_keys ?nm ?bs ?vf (?keys mapped_col) d
                 else d) (continuous_columns s) df"
  have run: "create_rate_of_change_features s df = Inr ?d'"
    by (rule create_rate_of_change_features_fold[OF labels])
  have inj: "\<forall>k\<in>?K. \<forall>k'\<in>?K. ?nm k = ?nm k' \<longrightarrow> k = k'"
  proof (intro ballI impI)
    fix k k' assume k: "k \<in> ?K" and k': "k' \<in> ?K" and eq: "?nm k = ?nm k'"
    obtain x1 m1 where k1: "k = (x1, m1)" by (cases k) auto
    obtain x2 m2 where k2: "k' = (x2, m2)" by (cases k') auto
    from eq k1 k2 have "m1 @ x1 = m2 @ x2" by simp
    moreover from k k' k1 k2 have "x1 \<in> set roc_suffixes" "x2 \<in> set roc_suffixes" by simp_all
    ultimately have "x1 = x2 \<and> m1 = m2" by (rule roc_suffix_inj)
    with k1 k2 show "k = k'" by simp
  qed
  have nc: "\<forall>k\<in>?K. ?nm k \<notin> ?B"
  proof
    fix k assume k: "k \<in> ?K"
    obtain x1 m1 where k1: "k = (x1, m1)" by (cases k) auto
    with k obtain c where "c \<in> set (continuous_columns s)" "m1 = get_mapped_column s c"
      "x1 \<in> set roc_suffixes" by auto
    with nocoll have "m1 @ x1 \<notin> ?B" by blast
    with k1 show "?nm k \<notin> ?B" by simp
  qed
  have bs: "\<forall>k\<in>?K. ?bs k \<in> ?B" by auto
  have keys: "\<forall>c\<in>set (continuous_columns s). get_mapped_column s c \<in> ?B
                \<and> set (?keys (get_mapped_column s c)) \<subseteq> ?K"
    by auto
  have k: "(sfx, get_mapped_column s col) \<in> set (?keys (get_mapped_column s col))"
    using sfx by simp
  from column_loop_written(1)[where nm="?nm" and bs="?bs" and vf="?vf" and keys_of="?keys"
        and mp="get_mapped_column s", OF inj nc bs keys col k]
  have "map_of ?d' (get_mapped_column s col @ sfx)
          = Some (roc_fn sfx (get_col df (get_mapped_column s col)))"
    by simp
  with run show ?thesis by simp
qed

lemma length_ffill_from: "length (ffill_from p xs) = length xs"
  by (induction xs arbitrary: p) auto

lemma length_ffill: "length (ffill xs) = length xs"
  by (simp add: ffill_def length_ffill_from)

lemma csub_NaN_right: "csub a NaN = NaN"
  by (cases a) auto

lemma cdiv_NaN_right: "cdiv a NaN = NaN"
  by (cases a) auto

lemma length_diff: "length (diff xs) = length xs"
  by (simp add: diff_def length_shift)

lemma diff_nth: "i < length xs \<Longrightarrow> diff xs ! i = (if i = 0 then NaN else csub (xs ! i) (xs ! (i - 1)))"
  by (simp add: diff_def length_shift shift_nth csub_NaN_right)

lemma length_pct_change: "length (pct_change xs) = length xs"
  by (simp add: pct_change_def Let_def length_shift length_ffill)

lemma pct_change_nth:
  "i < length xs \<Longrightarrow>
   pct_change xs ! i = (if i = 0 then NaN else csub (cdiv (ffill xs ! i) (ffill xs ! (i - 1))) (Num 1))"
  by (simp add: pct_change_def Let_def length_shift length_ffill shift_nth cdiv_NaN_right)

lemma ffill_from_nth:
  "i < length xs \<Longrightarrow>
   ffill_from p xs ! i = (if xs ! i \<noteq> NaN then xs ! i else if i = 0 then p else ffill_from p xs ! (i - 1))"
proof (induction xs arbitrary: p i)
  case Nil
  then show ?case by simp
next
  case (Cons x xs)
  show ?case
  proof (cases i)
    case 0
    then show ?thesis by simp
  next
    case (Suc j)
    with Cons.prems have j: "j < length xs" by simp
    show ?thesis
    proof (cases j)
      case 0
      with Suc j show ?thesis using Cons.IH[OF j, of p] Cons.IH[OF j, of x] by (cases xs) auto
    next
      case (Suc k)
      with \<open>i = Suc j\<close> j show ?thesis using Cons.IH[OF j, of p] Cons.IH[OF j, of x] by auto
    qed
  qed
qed

lemma ffill_nth:
  "i < length xs \<Longrightarrow>
   ffill xs ! i = (if xs ! i \<noteq> NaN then xs ! i else if i = 0 then NaN else ffill xs ! (i - 1))"
  unfolding ffill_def by (rule ffill_from_nth)

text \<open>
  C6, as the code has it. On a frame whose column labels are pairwise distinct, with a
  schema in which no generated rate-of-change name is the mapped name of a continuous
  column, the generator returns a frame that holds, for every continuous column
  present in the input, a first difference, a second difference and a percentage
  change that are missing at the first row. From the second row on the first
  difference is \<open>value[i] - value[i-1]\<close>, the second difference is the difference of the
  first difference, and the percentage change is \<open>f[i] / f[i-1] - 1\<close> on the
  forward-filled column \<open>f\<close>, in which a missing value has been replaced by the nearest
  value above it (the default \<^verbatim>\<open>fill_method='pad'\<close> of the pandas versions before 3.0,
  the ones that accept the \<^verbatim>\<open>fillna(method=...)\<close> of the cleaning step): it is missing
  when there is no value at or above row \<open>i - 1\<close>, and it is the number \<open>x / y - 1\<close> when
  \<open>f[i] = x\<close> and \<open>f[i-1] = y\<close> with \<open>y\<close> not zero. The arithmetic is that of the real
  numbers extended by the two infinities and the missing value; the rounding of the
  floating-point operations is not modelled.
\<close>

theorem rate_of_change_on_filled_column:
  assumes "distinct (columns df)"
    and "\<forall>c\<in>set (continuous_columns s). \<forall>sfx\<in>{''_roc'', ''_acceleration'', ''_pct_change''}.
             get_mapped_column s c @ sfx \<notin> get_mapped_column s ` set (continuous_columns s)"
    and "col \<in> set (continuous_columns s)" and "get_mapped_column s col \<in> set (columns df)"
  shows "\<exists>df' roc_col acc_col pct_col.
           create_rate_of_change_features s df = Inr df' \<and>
           map_of df' (get_mapped_column s col @ ''_roc'') = Some roc_col \<and>
           map_of df' (get_mapped_column s col @ ''_acceleration'') = Some acc_col \<and>
           map_of df' (get_mapped_column s col @ ''_pct_change'') = Some pct_col \<and>
           (let base_col = get_col df (get_mapped_column s col); filled = ffill base_col in
              length roc_col = length base_col \<and> length acc_col = length base_col \<and>
              length pct_col = length base_col \<and>
              (base_col \<noteq> [] \<longrightarrow> roc_col ! 0 = NaN \<and> acc_col ! 0 = NaN \<and> pct_col ! 0 = NaN) \<and>
              (\<forall>i<length base_col.
                 filled ! i = (if base_col ! i \<noteq> NaN then base_col ! i
                               else if i = 0 then NaN else filled ! (i - 1))) \<and>
              (\<forall>i. 0 < i \<and> i < length base_col \<longrightarrow>
                 roc_col ! i = csub (base_col ! i) (base_col ! (i - 1)) \<and>
                 acc_col ! i = csub (roc_col ! i) (roc_col ! (i - 1)) \<and>
                 pct_col ! i = csub (cdiv (filled ! i) (filled ! (i - 1))) (Num 1)) \<and>
              (\<forall>i. 0 < i \<and> i < length base_col \<and> filled ! (i - 1) = NaN \<longrightarrow> pct_col ! i = NaN) \<and>
              (\<forall>i x y. 0 < i \<and> i < length base_col \<and> filled ! i = Num x \<and> filled ! (i - 1) = Num y
                        \<and> y \<noteq> 0 \<longrightarrow> pct_col ! i = Num (x / y - 1)))"
proof -
  let ?m = "get_mapped_column s col"
  let ?base = "get_col df ?m"
  have nocoll: "\<forall>c\<in>set (continuous_columns s). \<forall>sfx\<in>set roc_suffixes.
                  get_mapped_column s c @ sfx \<notin> get_mapped_column s ` set (continuous_columns s)"
    using assms(2) by (simp add: roc_suffixes_def)
  note R = create_rate_of_change_features_map_of[OF assms(1) nocoll assms(3,4)]
  obtain df' where run: "create_rate_of_change_features s df = Inr df'"
    using R[of "''_roc''"] by (auto simp: roc_suffixes_def)
  have roc: "map_of df' (?m @ ''_roc'') = Some (diff ?base)"
    using R[of "''_roc''"] run by (simp add: roc_suffixes_def roc_fn_def)
  have acc: "map_of df' (?m @ ''_acceleration'') = Some (diff (diff ?base))"
    using R[of "''_acceleration''"] run by (simp add: roc_suffixes_def roc_fn_def)
  have pct: "map_of df' (?m @ ''_pct_change'') = Some (pct_change ?base)"
    using R[of "''_pct_change''"] run by (simp add: roc_suffixes_def roc_fn_def)
  have body:
    "length (diff ?base) = length ?base \<and> length (diff (diff ?base)) = length ?base \<and>
     length (pct_change ?base) = length ?base \<and>
     (?base \<noteq> [] \<longrightarrow> diff ?base ! 0 = NaN \<and> diff (diff ?base) ! 0 = NaN \<and> pct_change ?base ! 0 = NaN) \<and>
     (\<forall>i<length ?base.
        ffill ?base ! i = (if ?base ! i \<noteq> NaN then ?base ! i
                           else if i = 0 then NaN else ffill ?base ! (i - 1))) \<and>
     (\<forall>i. 0 < i \<and> i < length ?base \<longrightarrow>
        diff ?base ! i = csub (?base ! i) (?base ! (i - 1)) \<and>
        diff (diff ?base) ! i = csub (diff ?base ! i) (diff ?base ! (i - 1)) \<and>
        pct_change ?base ! i = csub (cdiv (ffill ?base ! i) (ffill ?base ! (i - 1))) (Num 1)) \<and>
     (\<forall>i. 0 < i \<and> i < length ?base \<and> ffill ?base ! (i - 1) = NaN \<longrightarrow> pct_change ?base ! i = NaN) \<and>
     (\<forall>i x y. 0 < i \<and> i < length ?base \<and> ffill ?base ! i = Num x \<and> ffill ?base ! (i - 1) = Num y
               \<and> y \<noteq> 0 \<longrightarrow> pct_change ?base ! i = Num (x / y - 1))"
  proof (intro conjI)
    show "length (diff ?base) = length ?base" by (simp add: length_diff)
    show "length (diff (diff ?base)) = length ?base" by (simp add: length_diff)
    show "length (pct_change ?base) = length ?base" by (simp add: length_pct_change)
    show "?base \<noteq> [] \<longrightarrow> diff ?base ! 0 = NaN \<and> diff (diff ?base) ! 0 = NaN \<and> pct_change ?base ! 0 = NaN"
      by (simp add: diff_nth pct_change_nth length_diff)
    show "\<forall>i<length ?base. ffill ?base ! i = (if ?base ! i \<noteq> NaN then ?base ! i
                               else if i = 0 then NaN else ffill ?base ! (i - 1))"
      using ffill_nth by blast
    show "\<forall>i. 0 < i \<and> i < length ?base \<longrightarrow>
        diff ?base ! i = csub (?base ! i) (?base ! (i - 1)) \<and>
        diff (diff ?base) ! i = csub (diff ?base ! i) (diff ?base ! (i - 1)) \<and>
        pct_change ?base ! i = csub (cdiv (ffill ?base ! i) (ffill ?base ! (i - 1))) (Num 1)"
      by (simp add: diff_nth pct_change_nth length_diff)
    show "\<forall>i. 0 < i \<and> i < length ?base \<and> ffill ?base ! (i - 1) = NaN \<longrightarrow> pct_change ?base ! i = NaN"
      by (simp add: pct_change_nth cdiv_NaN_right)
    show "\<forall>i x y. 0 < i \<and> i < length ?base \<and> ffill ?base ! i = Num x \<and> ffill ?base ! (i - 1) = Num y
               \<and> y \<noteq> 0 \<longrightarrow> pct_change ?base ! i = Num (x / y - 1)"
      by (simp add: pct_change_nth)
  qed
  show ?thesis
    unfolding Let_def
    apply (rule exI[of _ df'])
    apply (rule exI[of _ "diff ?base"])
    apply (rule exI[of _ "diff (diff ?base)"])
    apply (rule exI[of _ "pct_change ?base"])
    using run roc acc pct body apply blast
    done
qed

theorem rate_of_change_on_filled_column_witness:
  "\<exists>df' roc_col acc_col pct_col.
     create_rate_of_change_features schema_A frame_gap = Inr df' \<and>
     map_of df' ''temperature_roc'' = Some roc_col \<and>
     map_of df' ''temperature_acceleration'' = Some acc_col \<and>
     map_of df' ''temperature_pct_change'' = Some pct_col \<and>
     length pct_col = 3 \<and> roc_col ! 0 = NaN \<and> acc_col ! 0 = NaN \<and> pct_col ! 0 = NaN \<and>
     pct_col ! 2 = Num 1"
proof -
  have hd: "distinct (columns frame_gap)" by (simp add: frame_gap_def columns_def)
  have h1: "\<forall>c\<in>set (continuous_columns schema_A). \<forall>sfx\<in>{''_roc'', ''_acceleration'', ''_pct_change''}.
             get_mapped_column schema_A c @ sfx
               \<notin> get_mapped_column schema_A ` set (continuous_columns schema_A)"
    by (simp add: schema_A_def get_mapped_column_def)
  have h2: "''temperature'' \<in> set (continuous_columns schema_A)" by (simp add: schema_A_def)
  have h3: "get_mapped_column schema_A ''temperature'' \<in> set (columns frame_gap)"
    by (simp add: schema_A_def get_mapped_column_def frame_gap_def columns_def)
  have m: "get_mapped_column schema_A ''temperature'' = ''temperature''"
    by (simp add: schema_A_def get_mapped_column_def)
  have b: "get_col frame_gap ''temperature'' = [Num 1, NaN, Num 2]"
    by (simp add: get_col_def frame_gap_def)
  have f: "ffill [Num 1, NaN, Num 2] = [Num 1, Num 1, Num 2]"
    by (simp add: ffill_def)
  note T = rate_of_change_on_filled_column[OF hd h1 h2 h3, unfolded m b f Let_def]
  from T obtain df' roc_col acc_col pct_col where
        r: "create_rate_of_change_features schema_A frame_gap = Inr df'"
    and c1: "map_of df' (''temperature'' @ ''_roc'') = Some roc_col"
    and c2: "map_of df' (''temperature'' @ ''_acceleration'') = Some acc_col"
    and c3: "map_of df' (''temperature'' @ ''_pct_change'') = Some pct_col"
    and len: "length pct_col = length [Num 1, NaN, Num 2 :: cell]"
    and first: "[Num 1, NaN, Num 2 :: cell] \<noteq> [] \<longrightarrow> roc_col ! 0 = NaN \<and> acc_col ! 0 = NaN \<and> pct_col ! 0 = NaN"
    and num: "\<forall>i x y. 0 < i \<and> i < length [Num 1, NaN, Num 2 :: cell] \<and> [Num 1, Num 1, Num 2] ! i = Num x
                \<and> [Num 1, Num 1, Num 2] ! (i - 1) = Num y \<and> y \<noteq> 0 \<longrightarrow> pct_col ! i = Num (x / y - 1)"
    by (elim exE conjE) (rule that, assumption+)
  from num[rule_format, of 2 2 1] have "pct_col ! 2 = Num 1" by simp
  moreover from len have "length pct_col = 3" by simp
  moreover from first have "roc_col ! 0 = NaN \<and> acc_col ! 0 = NaN \<and> pct_col ! 0 = NaN" by simp
  ultimately show ?thesis using r c1 c2 c3 by auto
qed

text \<open>
  The claim fails where it says that the percentage change is missing whenever the
  previous value is missing or zero: after the gap at row 1 of \<open>frame_gap\<close> the
  percentage change of row 2 is the number 1, computed from the value that the fill
  carried down, and after the zero at row 0 of \<open>frame_zero\<close> the percentage change of
  row 1 is an infinity, which is a value and not a missing cell. It also fails on a
  frame with two columns of the declared label, where the first assignment raises
  ValueError, and when \<open>x_roc\<close> is itself declared: it is overwritten with the first
  difference of \<open>x\<close> before its own features are taken, so that its percentage change
  at row 1 is missing where the input column gives \<open>10 / 5 - 1\<close>.
\<close>

theorem pct_change_after_gap_or_zero_not_missing:
  "get_col frame_gap ''temperature'' ! 1 = NaN \<and>
   (\<exists>df'. create_rate_of_change_features schema_A frame_gap = Inr df' \<and>
          map_of df' ''temperature_pct_change'' = Some [NaN, Num 0, Num 1]) \<and>
   get_col frame_zero ''temperature'' ! 0 = Num 0 \<and>
   (\<exists>df'. create_rate_of_change_features schema_A frame_zero = Inr df' \<and>
          map_of df' ''temperature_pct_change'' = Some [NaN, PInf]) \<and>
   create_rate_of_change_features schema_A frame_repeated = Inl ValueError \<and>
   get_col frame_roc_clash ''x_roc'' = [Num 5, Num 10] \<and>
   (\<exists>df'. create_rate_of_change_features schema_roc_clash frame_roc_clash = Inr df' \<and>
          map_of df' ''x_roc_pct_change'' = Some [NaN, NaN])"
  by (simp add: create_rate_of_change_features_def roc_column_step_def schema_A_def frame_gap_def
      frame_zero_def frame_repeated_def schema_roc_clash_def frame_roc_clash_def
      get_mapped_column_def columns_def derive_col_def read_col_def and_then_def
      set_col_def get_col_def Let_def
      roc_name_def acc_name_def pct_name_def pct_change_def diff_def shift_def ffill_def)

section \<open>The enumeration of feature names\<close>

lemma get_all_feature_columns_blocks:
  "get_all_feature_columns s =
     concat (map (\<lambda>c. get_mapped_column s c # derived_names s (get_mapped_column s c))
                 (continuous_columns s))
     @ map (get_mapped_column s) (boolean_columns s)"
  unfolding get_all_feature_columns_def derived_names_def enumerated_rolling_def[abs_def] Let_def
  by simp

lemma set_enumerated_rolling:
  "set (enumerated_rolling m w) = (\<lambda>st. rolling_name st m w) ` {''mean'', ''std'', ''min'', ''max''}"
  by (simp add: enumerated_rolling_def)

lemma set_derived_names:
  "set (derived_names s m) =
     lag_name m ` set (lag_seconds s)
     \<union> (\<Union>w\<in>set (rolling_windows s). set (enumerated_rolling m w))"
  by (simp add: derived_names_def)

lemma set_get_all_feature_columns:
  "set (get_all_feature_columns s) =
     get_mapped_column s ` set (continuous_columns s)
     \<union> (\<Union>c\<in>set (continuous_columns s). set (derived_names s (get_mapped_column s c)))
     \<union> get_mapped_column s ` set (boolean_columns s)"
  unfolding get_all_feature_columns_blocks by auto

lemma enumerated_stat: "st \<in> {''mean'', ''std'', ''min'', ''max''} \<Longrightarrow> CHR ''_'' \<notin> set st"
  by auto

lemma distinct_enumerated_rolling: "distinct (enumerated_rolling m w)"
proof -
  have "rolling_name st m w \<noteq> rolling_name st' m w"
    if "st \<noteq> st'" "CHR ''_'' \<notin> set st" "CHR ''_'' \<notin> set st'" for st st'
    using that rolling_name_inj by blast
  then show ?thesis by (simp add: enumerated_rolling_def)
qed

lemma enumerated_rolling_disjoint:
  assumes "(m, w) \<noteq> (m', w')"
  shows "set (enumerated_rolling m w) \<inter> set (enumerated_rolling m' w') = {}"
proof -
  have "rolling_name st m w \<noteq> rolling_name st' m' w'"
    if "st \<in> {''mean'', ''std'', ''min'', ''max''}" "st' \<in> {''mean'', ''std'', ''min'', ''max''}" for st st'
    using rolling_name_inj[of st m w st' m' w'] enumerated_stat[OF that(1)] enumerated_stat[OF that(2)] assms
    by blast
  then show ?thesis unfolding set_enumerated_rolling by blast
qed

lemma distinct_rolling_block:
  "distinct ws \<Longrightarrow> distinct (concat (map (enumerated_rolling m) ws))"
proof (induction ws)
  case Nil
  then show ?case by simp
next
  case (Cons w ws)
  have "set (enumerated_rolling m w) \<inter> set (enumerated_rolling m w') = {}" if "w' \<in> set ws" for w'
    using that Cons.prems enumerated_rolling_disjoint[of m w m w'] by auto
  with Cons show ?case by (auto simp: distinct_enumerated_rolling)
qed

lemma lag_not_enumerated: "lag_name m l \<notin> set (enumerated_rolling m' w)"
  using lag_name_not_rolling_name by (auto simp: enumerated_rolling_def)

lemma distinct_derived_names:
  assumes "distinct (lag_seconds s)" "distinct (rolling_windows s)"
  shows "distinct (derived_names s m)"
proof -
  have "distinct (map (lag_name m) (lag_seconds s))"
    using assms(1) lag_name_inj by (auto simp: distinct_map inj_on_def)
  moreover have "distinct (concat (map (enumerated_rolling m) (rolling_windows s)))"
    using assms(2) by (rule distinct_rolling_block)
  moreover have "set (map (lag_name m) (lag_seconds s))
                   \<inter> set (concat (map (enumerated_rolling m) (rolling_windows s))) = {}"
    using lag_not_enumerated by auto
  ultimately show ?thesis by (simp add: derived_names_def)
qed

lemma derived_names_disjoint:
  assumes "m \<noteq> m'"
  shows "set (derived_names s m) \<inter> set (derived_names s m') = {}"
proof -
  have 1: "lag_name m l \<noteq> lag_name m' l'" for l l' using lag_name_inj assms by blast
  have 2: "set (enumerated_rolling m w) \<inter> set (enumerated_rolling m' w') = {}" for w w'
    using enumerated_rolling_disjoint[of m w m' w'] assms by simp
  show ?thesis
    unfolding set_derived_names using 1 2 lag_not_enumerated by blast
qed

lemma set_feature_blocks:
  "set (concat (map (\<lambda>m. m # derived_names s m) ms) @ bs)
     = set ms \<union> (\<Union>m\<in>set ms. set (derived_names s m)) \<union> set bs"
  by auto

lemma distinct_feature_blocks:
  assumes lags: "distinct (lag_seconds s)" and windows: "distinct (rolling_windows s)"
  shows "distinct (ms @ bs) \<Longrightarrow>
         (\<forall>m\<in>set ms. \<forall>b\<in>set (ms @ bs). b \<notin> set (derived_names s m)) \<Longrightarrow>
         distinct (concat (map (\<lambda>m. m # derived_names s m) ms) @ bs)"
proof (induction ms)
  case Nil
  then show ?case by simp
next
  case (Cons m ms)
  let ?rest = "concat (map (\<lambda>m. m # derived_names s m) ms) @ bs"
  have d: "distinct (ms @ bs)" using Cons.prems(1) by simp
  have nc: "\<forall>m'\<in>set ms. \<forall>b\<in>set (ms @ bs). b \<notin> set (derived_names s m')"
    using Cons.prems(2) by simp
  have IH: "distinct ?rest" by (rule Cons.IH[OF d nc])
  have m_new: "m \<notin> set ms \<union> set bs" using Cons.prems(1) by simp
  have m_not_derived: "m \<notin> set (derived_names s m')" if "m' \<in> set (m # ms)" for m'
    using Cons.prems(2) that by auto
  have dm: "distinct (derived_names s m)" by (rule distinct_derived_names[OF lags windows])
  have dm_base: "set (derived_names s m) \<inter> (set ms \<union> set bs) = {}"
    using Cons.prems(2) by auto
  have dm_other: "set (derived_names s m) \<inter> set (derived_names s m') = {}" if "m' \<in> set ms" for m'
    using that m_new derived_names_disjoint[of m m' s] by auto
  have rest: "set ?rest = set ms \<union> (\<Union>m\<in>set ms. set (derived_names s m)) \<union> set bs"
    by (rule set_feature_blocks)
  have 1: "m \<notin> set ?rest" unfolding rest using m_new m_not_derived by auto
  have 2: "set (derived_names s m) \<inter> set ?rest = {}"
    unfolding rest using dm_base dm_other by blast
  have 3: "m \<notin> set (derived_names s m)" using m_not_derived by simp
  have "distinct ((m # derived_names s m) @ ?rest)"
    using IH dm 1 2 3 by (simp only: distinct_append distinct.simps set_simps) blast
  then show ?case by simp
qed

lemma distinct_get_all_feature_columns:
  assumes "distinct (map (get_mapped_column s) (continuous_columns s @ boolean_columns s))"
    and "distinct (lag_seconds s)" and "distinct (rolling_windows s)"
    and "\<forall>c\<in>set (continuous_columns s). \<forall>b\<in>set (continuous_columns s @ boolean_columns s).
           get_mapped_column s b \<notin> set (derived_names s (get_mapped_column s c))"
  shows "distinct (get_all_feature_columns s)"
proof -
  let ?ms = "map (get_mapped_column s) (continuous_columns s)"
  let ?bs = "map (get_mapped_column s) (boolean_columns s)"
  have eq: "get_all_feature_columns s = concat (map (\<lambda>m. m # derived_names s m) ?ms) @ ?bs"
    by (simp add: get_all_feature_columns_blocks comp_def)
  have d: "distinct (?ms @ ?bs)" using assms(1) by simp
  have nc: "\<forall>m\<in>set ?ms. \<forall>b\<in>set (?ms @ ?bs). b \<notin> set (derived_names s m)"
    using assms(4) by auto
  show ?thesis unfolding eq by (rule distinct_feature_blocks[OF assms(2,3) d nc])
qed

lemma columns_column_loop:
  "mp ` set cs \<subseteq> set (columns d) \<Longrightarrow>
   set (columns (fold (\<lambda>col d. let mapped_col = mp col in
                 if mapped_col \<in> set (columns d)
                 then write_keys nm bs vf (keys_of mapped_col) d
                 else d) cs d))
     = set (columns d) \<union> (\<Union>c\<in>set cs. nm ` set (keys_of (mp c)))"
proof (induction cs arbitrary: d)
  case Nil
  then show ?case by simp
next
  case (Cons c cs)
  let ?d1 = "write_keys nm bs vf (keys_of (mp c)) d"
  have c: "mp c \<in> set (columns d)" using Cons.prems by simp
  have "mp ` set cs \<subseteq> set (columns ?d1)" using Cons.prems by (auto simp: columns_write_keys)
  from Cons.IH[OF this] c show ?case by (auto simp: columns_write_keys)
qed

lemma distinct_column_loop:
  "distinct (columns d) \<Longrightarrow>
   distinct (columns (fold (\<lambda>col d. let mapped_col = mp col in
                 if mapped_col \<in> set (columns d)
                 then write_keys nm bs vf (keys_of mapped_col) d
                 else d) cs d))"
  by (induction cs arbitrary: d) (simp_all add: Let_def distinct_write_keys)

lemma columns_create_lag_features:
  assumes "sampling_interval_minutes dc \<noteq> 0" and "distinct (columns df)"
    and "get_mapped_column s ` set (continuous_columns s) \<subseteq> set (columns df)"
  shows "\<exists>df1. create_lag_features s dc df = Inr df1 \<and> distinct (columns df1) \<and>
           set (columns df1) = set (columns df)
             \<union> (\<Union>c\<in>set (continuous_columns s). lag_name (get_mapped_column s c) ` set (lag_seconds s))"
proof -
  let ?P = "\<lambda>l. max 1 (l div (sampling_interval_minutes dc * 60))"
  let ?nm = "\<lambda>(m, l). lag_name m l"
  let ?vf = "\<lambda>(m :: string, l). shift (nat (?P l))"
  let ?keys = "\<lambda>m. map (Pair m) (lag_seconds s)"
  let ?d' = "fold (\<lambda>col d. let mapped_col = get_mapped_column s col in
                 if mapped_col \<in> set (columns d)
                 then write_keys ?nm fst ?vf (?keys mapped_col) d
                 else d) (continuous_columns s) df"
  have run: "create_lag_features s dc df = Inr ?d'"
    by (rule create_lag_features_fold[OF assms(1,2)])
  have dist: "distinct (columns ?d')" using assms(2) by (rule distinct_column_loop)
  have "set (columns ?d') = set (columns df)
          \<union> (\<Union>c\<in>set (continuous_columns s). ?nm ` set (?keys (get_mapped_column s c)))"
    by (rule columns_column_loop[OF assms(3)])
  also have "\<dots> = set (columns df)
             \<union> (\<Union>c\<in>set (continuous_columns s). lag_name (get_mapped_column s c) ` set (lag_seconds s))"
    by (simp add: image_image)
  finally show ?thesis using run dist by simp
qed

lemma columns_create_rolling_features:
  assumes "\<forall>w\<in>set (rolling_windows s). 1 \<le> w" and "distinct (columns df)"
    and "get_mapped_column s ` set (continuous_columns s) \<subseteq> set (columns df)"
  shows "\<exists>df2. create_rolling_features s df = Inr df2 \<and> distinct (columns df2) \<and>
           set (columns df2) = set (columns df)
             \<union> (\<Union>c\<in>set (continuous_columns s). \<Union>w\<in>set (rolling_windows s).
                  (\<lambda>st. rolling_name st (get_mapped_column s c) w) ` set rolling_stats)"
proof -
  let ?nm = "\<lambda>(st, m, w). rolling_name st m w"
  let ?bs = "\<lambda>(st :: string, m :: string, w :: int). m"
  let ?vf = "\<lambda>(st, m :: string, w). rolling_apply (stat_fn st) (nat w)"
  let ?keys = "rolling_keys (rolling_windows s)"
  let ?d' = "fold (\<lambda>col d. let mapped_col = get_mapped_column s col in
                 if mapped_col \<in> set (columns d)
                 then write_keys ?nm ?bs ?vf (?keys mapped_col) d
                 else d) (continuous_columns s) df"
  have run: "create_rolling_features s df = Inr ?d'"
    by (rule create_rolling_features_fold[OF assms(1,2)])
  have dist: "distinct (columns ?d')" using assms(2) by (rule distinct_column_loop)
  have names: "?nm ` set (?keys m) = (\<Union>w\<in>set (rolling_windows s). (\<lambda>st. rolling_name st m w) ` set rolling_stats)" for m
    unfolding rolling_keys_def by (auto simp: image_iff; blast)
  have "set (columns ?d') = set (columns df)
          \<union> (\<Union>c\<in>set (continuous_columns s). ?nm ` set (?keys (get_mapped_column s c)))"
    by (rule columns_column_loop[OF assms(3)])
  then show ?thesis using run dist unfolding names by simp
qed

lemma columns_create_rate_of_change_features:
  assumes "distinct (columns df)"
    and "get_mapped_column s ` set (continuous_columns s) \<subseteq> set (columns df)"
  shows "\<exists>df3. create_rate_of_change_features s df = Inr df3 \<and> distinct (columns df3) \<and>
           set (columns df3) = set (columns df)
             \<union> (\<Union>c\<in>set (continuous_columns s). (\<lambda>sfx. get_mapped_column s c @ sfx) ` set roc_suffixes)"
proof -
  let ?nm = "\<lambda>(sfx :: string, m :: string). m @ sfx"
  let ?bs = "snd :: string \<times> string \<Rightarrow> string"
  let ?vf = "\<lambda>(sfx, m :: string). roc_fn sfx"
  let ?keys = "\<lambda>m :: string. map (\<lambda>sfx. (sfx, m)) roc_suffixes"
  let ?d' = "fold (\<lambda>col d. let mapped_col = get_mapped_column s col in
                 if mapped_col \<in> set (columns d)
                 then write_keys ?nm ?bs ?vf (?keys mapped_col) d
                 else d) (continuous_columns s) df"
  have run: "create_rate_of_change_features s df = Inr ?d'"
    by (rule create_rate_of_change_features_fold[OF assms(1)])
  have dist: "distinct (columns ?d')" using assms(1) by (rule distinct_column_loop)
  have "set (columns ?d') = set (columns df)
          \<union> (\<Union>c\<in>set (continuous_columns s). ?nm ` set (?keys (get_mapped_column s c)))"
    by (rule columns_column_loop[OF assms(2)])
  also have "\<dots> = set (columns df)
             \<union> (\<Union>c\<in>set (continuous_columns s). (\<lambda>sfx. get_mapped_column s c @ sfx) ` set roc_suffixes)"
    by (simp add: image_image)
  finally show ?thesis using run dist by simp
qed

text \<open>
  C1, as the code has it. Run on a table whose labels are pairwise distinct and that
  contains every declared (mapped) continuous and boolean column, with a non-zero
  sampling interval and windows of at least one sample, the lag and rolling generators
  return a table in which every name that \<open>get_all_feature_columns\<close> enumerates is a
  column, and the columns that the lag generator adds are the lag names of the
  enumeration. The enumeration has no duplicates when the mapped names of the declared
  columns are pairwise different, no lag and no window is configured twice, and no
  mapped name is one of the lag or rolling names built from a continuous column.
\<close>

theorem enumeration_within_lag_and_rolling_columns:
  assumes "sampling_interval_minutes dc \<noteq> 0"
    and "\<forall>w\<in>set (rolling_windows s). 1 \<le> w"
    and "distinct (columns df)"
    and "\<forall>c\<in>set (continuous_columns s @ boolean_columns s). get_mapped_column s c \<in> set (columns df)"
  shows "\<exists>df1 df2.
           create_lag_features s dc df = Inr df1 \<and> create_rolling_features s df1 = Inr df2 \<and>
           set (columns df1) = set (columns df)
             \<union> {lag_name (get_mapped_column s c) l | c l.
                  c \<in> set (continuous_columns s) \<and> l \<in> set (lag_seconds s)} \<and>
           set (columns df1) \<subseteq> set (columns df) \<union> set (get_all_feature_columns s) \<and>
           set (get_all_feature_columns s) \<subseteq> set (columns df2) \<and>
           (distinct (map (get_mapped_column s) (continuous_columns s @ boolean_columns s)) \<and>
            distinct (lag_seconds s) \<and> distinct (rolling_windows s) \<and>
            (\<forall>c\<in>set (continuous_columns s). \<forall>b\<in>set (continuous_columns s @ boolean_columns s).
               (\<forall>l\<in>set (lag_seconds s). get_mapped_column s b \<noteq> lag_name (get_mapped_column s c) l) \<and>
               (\<forall>w\<in>set (rolling_windows s). \<forall>st\<in>{''mean'', ''std'', ''min'', ''max''}.
                  get_mapped_column s b \<noteq> rolling_name st (get_mapped_column s c) w))
            \<longrightarrow> distinct (get_all_feature_columns s))"
proof -
  let ?mp = "get_mapped_column s"
  have cont: "?mp ` set (continuous_columns s) \<subseteq> set (columns df)" using assms(4) by auto
  have bools: "?mp ` set (boolean_columns s) \<subseteq> set (columns df)" using assms(4) by auto
  from columns_create_lag_features[OF assms(1,3) cont]
  obtain df1 where r1: "create_lag_features s dc df = Inr df1"
    and d1: "distinct (columns df1)"
    and c1: "set (columns df1) = set (columns df)
             \<union> (\<Union>c\<in>set (continuous_columns s). lag_name (?mp c) ` set (lag_seconds s))"
    by blast
  have cont1: "?mp ` set (continuous_columns s) \<subseteq> set (columns df1)" using cont c1 by auto
  from columns_create_rolling_features[OF assms(2) d1 cont1]
  obtain df2 where r2: "create_rolling_features s df1 = Inr df2"
    and c2: "set (columns df2) = set (columns df1)
             \<union> (\<Union>c\<in>set (continuous_columns s). \<Union>w\<in>set (rolling_windows s).
                  (\<lambda>st. rolling_name st (?mp c) w) ` set rolling_stats)"
    by blast
  define L where "L = (\<Union>c\<in>set (continuous_columns s). lag_name (?mp c) ` set (lag_seconds s))"
  define R where "R = (\<Union>c\<in>set (continuous_columns s). \<Union>w\<in>set (rolling_windows s).
                         set (enumerated_rolling (?mp c) w))"
  define R' where "R' = (\<Union>c\<in>set (continuous_columns s). \<Union>w\<in>set (rolling_windows s).
                  (\<lambda>st. rolling_name st (?mp c) w) ` set rolling_stats)"
  have stats: "set (enumerated_rolling m w) \<subseteq> (\<lambda>st. rolling_name st m w) ` set rolling_stats" for m w
    by (simp add: rolling_stats_def enumerated_rolling_def)
  have sub: "R \<subseteq> R'"
    unfolding R_def R'_def using stats by blast
  have all: "set (get_all_feature_columns s)
               = ?mp ` set (continuous_columns s) \<union> (L \<union> R) \<union> ?mp ` set (boolean_columns s)"
    unfolding set_get_all_feature_columns set_derived_names L_def R_def by blast
  have cols1: "set (columns df1) = set (columns df) \<union> L" unfolding c1 L_def ..
  have cols2: "set (columns df2) = set (columns df) \<union> L \<union> R'" unfolding c2 c1 L_def R'_def ..
  have Leq: "L = {lag_name (?mp c) l | c l. c \<in> set (continuous_columns s) \<and> l \<in> set (lag_seconds s)}"
    unfolding L_def by blast
  have e1: "set (columns df1) = set (columns df)
             \<union> {lag_name (?mp c) l | c l. c \<in> set (continuous_columns s) \<and> l \<in> set (lag_seconds s)}"
    using cols1 Leq by simp
  have e2: "set (columns df1) \<subseteq> set (columns df) \<union> set (get_all_feature_columns s)"
    unfolding cols1 all by blast
  have e3: "set (get_all_feature_columns s) \<subseteq> set (columns df2)"
    unfolding cols2 all using cont bools sub by blast
  have dist: "distinct (get_all_feature_columns s)"
    if d: "distinct (map ?mp (continuous_columns s @ boolean_columns s))"
      and l: "distinct (lag_seconds s)" and w: "distinct (rolling_windows s)"
      and nc: "\<forall>c\<in>set (continuous_columns s). \<forall>b\<in>set (continuous_columns s @ boolean_columns s).
               (\<forall>l\<in>set (lag_seconds s). ?mp b \<noteq> lag_name (?mp c) l) \<and>
               (\<forall>w\<in>set (rolling_windows s). \<forall>st\<in>{''mean'', ''std'', ''min'', ''max''}.
                  ?mp b \<noteq> rolling_name st (?mp c) w)"
  proof -
    have "\<forall>c\<in>set (continuous_columns s). \<forall>b\<in>set (continuous_columns s @ boolean_columns s).
            ?mp b \<notin> set (derived_names s (?mp c))"
      unfolding set_derived_names set_enumerated_rolling using nc by blast
    with d l w show ?thesis by (rule distinct_get_all_feature_columns)
  qed
  from r1 r2 e1 e2 e3 dist show ?thesis by blast
qed

theorem enumeration_within_lag_and_rolling_columns_witness:
  "\<exists>df1 df2.
     create_lag_features schema_A data_A frame_A = Inr df1 \<and>
     create_rolling_features schema_A df1 = Inr df2 \<and>
     set (columns df1) \<subseteq> set (columns frame_A) \<union> set (get_all_feature_columns schema_A) \<and>
     set (get_all_feature_columns schema_A) \<subseteq> set (columns df2) \<and>
     distinct (get_all_feature_columns schema_A)"
proof -
  have h1: "sampling_interval_minutes data_A \<noteq> 0" by (simp add: data_A_def)
  have h2: "\<forall>w\<in>set (rolling_windows schema_A). 1 \<le> w" by (simp add: schema_A_def)
  have hd: "distinct (columns frame_A)" by (simp add: frame_A_def columns_def)
  have h3: "\<forall>c\<in>set (continuous_columns schema_A @ boolean_columns schema_A).
              get_mapped_column schema_A c \<in> set (columns frame_A)"
    by (simp add: schema_A_def get_mapped_column_def frame_A_def columns_def)
  have d: "distinct (map (get_mapped_column schema_A) (continuous_columns schema_A @ boolean_columns schema_A))
         \<and> distinct (lag_seconds schema_A) \<and> distinct (rolling_windows schema_A)"
    by (simp add: schema_A_def)
  have nc: "\<forall>c\<in>set (continuous_columns schema_A). \<forall>b\<in>set (continuous_columns schema_A @ boolean_columns schema_A).
               (\<forall>l\<in>set (lag_seconds schema_A).
                  get_mapped_column schema_A b \<noteq> lag_name (get_mapped_column schema_A c) l) \<and>
               (\<forall>w\<in>set (rolling_windows schema_A). \<forall>st\<in>{''mean'', ''std'', ''min'', ''max''}.
                  get_mapped_column schema_A b \<noteq> rolling_name st (get_mapped_column schema_A c) w)"
    by (simp add: schema_A_def get_mapped_column_def lag_name_def rolling_name_def)
  from enumeration_within_lag_and_rolling_columns[OF h1 h2 hd h3]
  obtain df1 df2 where r1: "create_lag_features schema_A data_A frame_A = Inr df1"
    and r2: "create_rolling_features schema_A df1 = Inr df2"
    and sub1: "set (columns df1) \<subseteq> set (columns frame_A) \<union> set (get_all_feature_columns schema_A)"
    and sub2: "set (get_all_feature_columns schema_A) \<subseteq> set (columns df2)"
    and dist: "distinct (map (get_mapped_column schema_A) (continuous_columns schema_A @ boolean_columns schema_A)) \<and>
            distinct (lag_seconds schema_A) \<and> distinct (rolling_windows schema_A) \<and>
            (\<forall>c\<in>set (continuous_columns schema_A). \<forall>b\<in>set (continuous_columns schema_A @ boolean_columns schema_A).
               (\<forall>l\<in>set (lag_seconds schema_A).
                  get_mapped_column schema_A b \<noteq> lag_name (get_mapped_column schema_A c) l) \<and>
               (\<forall>w\<in>set (rolling_windows schema_A). \<forall>st\<in>{''mean'', ''std'', ''min'', ''max''}.
                  get_mapped_column schema_A b \<noteq> rolling_name st (get_mapped_column schema_A c) w))
            \<longrightarrow> distinct (get_all_feature_columns schema_A)"
    by (elim exE conjE) (rule that, assumption+)
  from dist d nc have "distinct (get_all_feature_columns schema_A)" by (elim impE conjE) (intro conjI)
  with r1 r2 sub1 sub2 show ?thesis by blast
qed

text \<open>
  The claim fails: on \<open>frame_A\<close>, which holds the one declared column, the
  rate-of-change generator, one of the generator stages, adds \<open>temperature_roc\<close>, which
  the enumeration does not list; the enumeration lists the declared name
  \<open>temperature\<close>, which no stage adds; with two raw columns renamed to the same name
  the enumeration lists that name twice; and on a frame with two columns of the
  declared label the first generator raises ValueError.
\<close>

theorem enumeration_misses_generated_columns_and_repeats:
  "(\<exists>df'. create_rate_of_change_features schema_A frame_A = Inr df' \<and>
      ''temperature_roc'' \<in> set (columns df')) \<and>
   ''temperature_roc'' \<notin> set (columns frame_A) \<and>
   ''temperature_roc'' \<notin> set (get_all_feature_columns schema_A) \<and>
   ''temperature'' \<in> set (get_all_feature_columns schema_A) \<and>
   ''temperature'' \<in> set (columns frame_A) \<and>
   get_all_feature_columns schema_merge = [''temp'', ''temp''] \<and>
   create_lag_features schema_A data_A frame_repeated = Inl ValueError"
proof (intro conjI)
  show "\<exists>df'. create_rate_of_change_features schema_A frame_A = Inr df' \<and>
      ''temperature_roc'' \<in> set (columns df')"
    by (simp add: create_rate_of_change_features_def roc_column_step_def schema_A_def
        frame_A_def get_mapped_column_def columns_def derive_col_def read_col_def and_then_def
        set_col_def roc_name_def acc_name_def pct_name_def)
  show "''temperature_roc'' \<notin> set (columns frame_A)"
    by (simp add: frame_A_def columns_def)
  show "''temperature_roc'' \<notin> set (get_all_feature_columns schema_A)"
    by (simp add: get_all_feature_columns_def schema_A_def get_mapped_column_def lag_name_def
        rolling_name_def str_int_5 str_int_300)
  show "''temperature'' \<in> set (get_all_feature_columns schema_A)"
    by (simp add: get_all_feature_columns_def schema_A_def get_mapped_column_def)
  show "''temperature'' \<in> set (columns frame_A)"
    by (simp add: frame_A_def columns_def)
  show "get_all_feature_columns schema_merge = [''temp'', ''temp'']"
    by (simp add: get_all_feature_columns_def schema_merge_def get_mapped_column_def)
  show "create_lag_features schema_A data_A frame_repeated = Inl ValueError"
    by (simp add: create_lag_features_def lag_periods_def schema_A_def data_A_def
        frame_repeated_def get_mapped_column_def columns_def lag_column_loop_def
        derive_col_def read_col_def)
qed

section \<open>The cleaning step\<close>

lemma bitlen_bounds: "0 < n \<Longrightarrow> 2 ^ (bitlen n - 1) \<le> n"
proof (induction n rule: bitlen.induct)
  case (1 n)
  show ?case
  proof (cases "n div 2 = 0")
    case True
    with 1(2) have "n = 1" by (simp add: div_eq_0_iff)
    then show ?thesis by (simp add: bitlen.simps[of "Suc 0"] bitlen.simps[of 0])
  next
    case False
    then have pos: "0 < n div 2" by simp
    from 1(1)[OF _ pos] 1(2) have IH: "2 ^ (bitlen (n div 2) - 1) \<le> n div 2" by simp
    have b: "bitlen n = Suc (bitlen (n div 2))" using 1(2) by (subst bitlen.simps) simp
    have "0 < bitlen (n div 2)" using pos by (subst bitlen.simps) simp
    then have "2 ^ (bitlen n - 1) = 2 * 2 ^ (bitlen (n div 2) - 1)"
      unfolding b by (cases "bitlen (n div 2)") auto
    also have "\<dots> \<le> 2 * (n div 2)" using IH by simp
    also have "\<dots> \<le> n" by simp
    finally show ?thesis .
  qed
qed

lemma round_to_53_le:
  "round_to_53 p \<le> p + p div 2 ^ 52"
proof (cases "bitlen p \<le> 53")
  case True
  then show ?thesis by (simp add: round_to_53_def)
next
  case False
  define sh where "sh = bitlen p - 53"
  define q where "q = p div 2 ^ sh"
  have sh: "bitlen p - 1 = sh + 52" using False by (simp add: sh_def)
  have "0 < p" using False by (cases "p = 0") (simp_all add: bitlen.simps[of 0])
  from bitlen_bounds[OF this] have "(2::nat) ^ (sh + 52) \<le> p" unfolding sh .
  then have "(2::nat) ^ sh * 2 ^ 52 \<le> p" by (simp add: power_add)
  then have low: "(2::nat) ^ sh \<le> p div 2 ^ 52"
    by (simp add: less_eq_div_iff_mult_less_eq)
  have "round_to_53 p \<le> (q + 1) * 2 ^ sh"
    using False by (simp add: round_to_53_def Let_def sh_def[symmetric] q_def[symmetric])
  also have "\<dots> = q * 2 ^ sh + 2 ^ sh" by (simp add: algebra_simps)
  also have "q * 2 ^ sh \<le> p" unfolding q_def by simp
  finally show ?thesis using low by simp
qed

lemma thresh_of_le: "thresh_of n \<le> n"
proof -
  let ?c = "6305039478318694 :: nat"
  let ?p = "n * ?c"
  have "round_to_53 ?p \<le> ?p + ?p div 2 ^ 52" by (rule round_to_53_le)
  also have "?p div 2 ^ 52 \<le> n * 2" 
  proof -
    have "?p \<le> n * (2 * 2 ^ 52)" by (intro mult_le_mono2) simp
    then have "?p div 2 ^ 52 \<le> (n * 2 * 2 ^ 52) div 2 ^ 52"
      by (intro div_le_mono) (simp add: mult.assoc)
    then show ?thesis by simp
  qed
  also have "?p + n * 2 = n * (?c + 2)" by (simp add: algebra_simps)
  also have "\<dots> \<le> n * 2 ^ 53" by (intro mult_le_mono2) simp
  finally have "round_to_53 ?p \<le> n * 2 ^ 53" by simp
  then have "round_to_53 ?p div 2 ^ 53 \<le> (n * 2 ^ 53) div 2 ^ 53" by (rule div_le_mono)
  then show ?thesis by (simp add: thresh_of_def)
qed

lemma nrows_keep_rows:
  "df \<noteq> [] \<Longrightarrow> nrows (keep_rows keep df) = length (filter keep [0..<nrows df])"
  by (cases df) (auto simp: keep_rows_def nrows_def)

lemma rect_keep_rows: "rect (keep_rows keep df)"
proof (cases "df = []")
  case True
  then show ?thesis by (simp add: rect_def keep_rows_def)
next
  case False
  show ?thesis
    unfolding rect_def nrows_keep_rows[OF False]
    by (auto simp: keep_rows_def)
qed

lemma no_missing_dropna: "no_missing (dropna df)"
  unfolding no_missing_def dropna_def keep_rows_def row_at_def
  by (auto simp: image_iff)

lemma columns_keep_rows: "columns (keep_rows keep df) = columns df"
  by (simp add: keep_rows_def columns_def comp_def case_prod_beta)

lemma keep_rows_all:
  assumes "rect df" and "\<forall>i<nrows df. keep i"
  shows "keep_rows keep df = df"
proof -
  have f: "filter keep [0..<nrows df] = [0..<nrows df]"
    using assms(2) by (simp add: filter_id_conv)
  have "map (\<lambda>i. c ! i) [0..<nrows df] = c" if "(n, c) \<in> set df" for n c
  proof -
    from that assms(1) have "nrows df = length c" by (auto simp: rect_def)
    then show ?thesis by (simp add: map_nth)
  qed
  then have "map (\<lambda>(n, c). (n, map (\<lambda>i. c ! i) [0..<nrows df])) df = map (\<lambda>x. x) df"
    by (intro map_cong) auto
  then show ?thesis by (simp add: keep_rows_def f)
qed

lemma row_at_no_missing:
  assumes "rect df" "no_missing df" "i < nrows df"
  shows "NaN \<notin> set (row_at df i)"
proof
  assume "NaN \<in> set (row_at df i)"
  then obtain n c where nc: "(n, c) \<in> set df" and "c ! i = NaN"
    by (auto simp: row_at_def)
  moreover from nc assms(1,3) have "i < length c" by (auto simp: rect_def)
  ultimately have "NaN \<in> set c" by (metis nth_mem)
  with nc assms(2) show False by (auto simp: no_missing_def)
qed

lemma dropna_id: "rect df \<Longrightarrow> no_missing df \<Longrightarrow> dropna df = df"
  unfolding dropna_def by (rule keep_rows_all) (auto simp: row_at_no_missing)

lemma dropna_thresh_id:
  assumes "rect df" "no_missing df" "k \<le> length df"
  shows "dropna_thresh k df = df"
  unfolding dropna_thresh_def
proof (rule keep_rows_all[OF assms(1)], intro allI impI)
  fix i assume "i < nrows df"
  from row_at_no_missing[OF assms(1,2) this]
  have "filter (\<lambda>c. c \<noteq> NaN) (row_at df i) = row_at df i"
    by (auto simp: filter_id_conv)
  then show "k \<le> length (filter (\<lambda>c. c \<noteq> NaN) (row_at df i))"
    using assms(3) by (simp add: row_at_def)
qed

lemma ffill_from_id: "NaN \<notin> set xs \<Longrightarrow> ffill_from p xs = xs"
  by (induction xs arbitrary: p) auto

lemma ffill_id: "NaN \<notin> set xs \<Longrightarrow> ffill xs = xs"
  by (simp add: ffill_def ffill_from_id)

lemma bfill_id: "NaN \<notin> set xs \<Longrightarrow> bfill xs = xs"
  by (simp add: bfill_def ffill_id)

lemma fillna_id: "no_missing df \<Longrightarrow> fillna_bfill (fillna_ffill df) = df"
proof -
  assume a: "no_missing df"
  have "map (\<lambda>(n, c). (n, bfill c)) (map (\<lambda>(n, c). (n, ffill c)) df) = map (\<lambda>x. x) df"
    unfolding map_map
    by (intro map_cong) (use a in \<open>auto simp: no_missing_def ffill_id bfill_id\<close>)
  then show ?thesis by (simp add: fillna_bfill_def fillna_ffill_def)
qed

lemma clean_id:
  assumes "rect df" "no_missing df"
  shows "clean df = df"
proof -
  have "thresh_of (length (columns df)) \<le> length df"
    using thresh_of_le[of "length df"] by (simp add: columns_def)
  then have "dropna_thresh (thresh_of (length (columns df))) df = df"
    by (rule dropna_thresh_id[OF assms])
  then show ?thesis
    by (simp add: clean_def Let_def fillna_id[OF assms(2)] dropna_id[OF assms])
qed

lemma rect_clean: "rect (clean df)"
  by (simp add: clean_def Let_def dropna_def rect_keep_rows)

lemma no_missing_clean: "no_missing (clean df)"
  by (simp add: clean_def Let_def no_missing_dropna)

text \<open>
  C7. The cleaning policy (drop the rows with fewer populated columns than the threshold
  computed for 70 percent of the columns, forward-fill, backward-fill, drop the rows
  that still hold a missing value) is idempotent: applied to its own output it returns
  that table unchanged.
\<close>

theorem clean_idempotent: "clean (clean df) = clean df"
  by (rule clean_id[OF rect_clean no_missing_clean])

section \<open>Example runs, evaluated\<close>

lemma thresh_of_2: "thresh_of 2 = 1"
  by (simp add: thresh_of_def round_to_53_def bitlen.simps Let_def)

lemma thresh_of_1: "thresh_of (Suc 0) = 0"
  by (simp add: thresh_of_def round_to_53_def bitlen.simps Let_def)

lemma thresh_of_Suc2: "thresh_of (Suc (Suc 0)) = Suc 0"
  using thresh_of_2 by (simp add: numeral_2_eq_2)

lemma thresh_of_4: "thresh_of 4 = 2"
  by (simp add: thresh_of_def round_to_53_def bitlen.simps Let_def)

lemma thresh_of_Suc4: "thresh_of (Suc (Suc (Suc (Suc 0)))) = 2"
  using thresh_of_4 by (simp add: eval_nat_numeral)

lemma generators_humidity: "run_generators idle_bodies schema_A data_A frame_humidity = Inr frame_humidity"
  by (simp add: run_generators_def create_time_based_features_def rename_columns_def
      create_lag_features_def lag_periods_def create_rolling_features_def
      create_rate_of_change_features_def create_interaction_features_def key_interactions_def
      create_statistical_features_def create_anomaly_features_def
      create_domain_specific_features_def idle_bodies_def schema_A_def data_A_def
      frame_humidity_def get_mapped_column_def columns_def Let_def)

lemma clean_humidity:
  "clean frame_humidity
     = [(''humidity'', [Num 1, Num 1, Num 3]), (''failure_indicator'', [Num 0, Num 1, Num 1])]"
  by (simp add: clean_def frame_humidity_def columns_def thresh_of_Suc2 Let_def dropna_thresh_def
      keep_rows_def nrows_def row_at_def upt_rec[of 0] upt_rec[of 1] upt_rec[of 2] upt_rec[of 3]
      fillna_ffill_def fillna_bfill_def ffill_def bfill_def dropna_def)

lemma pipeline_humidity:
  "engineer_features idle_bodies anova_scorers schema_A data_A frame_humidity False 100
     = Inr ([(''humidity'', [Num 1, Num 1, Num 3]), (''failure_indicator'', [Num 0, Num 1, Num 1])],
            [''humidity''])"
  unfolding engineer_features_def generators_humidity
  by (simp add: clean_humidity candidate_columns_def columns_def) (simp add: schema_A_def)

section \<open>The pipeline\<close>

lemma get_col_cases: "get_col df n = [] \<or> (n, get_col df n) \<in> set df"
  by (auto simp: get_col_def split: option.splits dest: map_of_SomeD)

lemma get_col_no_missing: "no_missing df \<Longrightarrow> NaN \<notin> set (get_col df n)"
  using get_col_cases[of df n] by (auto simp: no_missing_def)

lemma select_features_result:
  assumes "select_features sc s df target_col feature_columns k method = Inr (t, names)"
  shows "t = map (\<lambda>n. (n, get_col df n)) (names @ [target_col, timestamp_column s])"
    and "set names \<subseteq> set feature_columns"
    and "names = map (\<lambda>i. feature_columns ! i)
                   (get_support (selection_scores sc df target_col feature_columns method)
                      (nat (min k (int (length feature_columns)))))"
    and "0 \<le> k" and "feature_columns \<noteq> []"
    and "get_support (selection_scores sc df target_col feature_columns method)
           (nat (min k (int (length feature_columns)))) = []
         \<or> length (selection_scores sc df target_col feature_columns method) = length feature_columns"
proof -
  let ?scores = "selection_scores sc df target_col feature_columns method"
  let ?support = "get_support ?scores (nat (min k (int (length feature_columns))))"
  from assms show names: "names = map (\<lambda>i. feature_columns ! i) ?support"
    and "t = map (\<lambda>n. (n, get_col df n)) (names @ [target_col, timestamp_column s])"
    and len: "?support = [] \<or> length ?scores = length feature_columns"
    and "0 \<le> k" and "feature_columns \<noteq> []"
    by (auto simp: select_features_def Let_def split: if_splits)
  have "set ?support \<subseteq> {0..<length ?scores}"
    by (auto simp: get_support_def Let_def)
  with len have "\<forall>i\<in>set ?support. i < length feature_columns" by auto
  then show "set names \<subseteq> set feature_columns" unfolding names by auto
qed



lemma engineer_features_Inr:
  assumes "engineer_features b sc s dc df include_selection max_features = Inr (t, names)"
  shows "\<exists>generated. run_generators b s dc df = Inr generated \<and>
            (if include_selection \<and> max_features < int (length (candidate_columns s (clean generated)))
             then select_features sc s (clean generated) (target_column s)
                    (candidate_columns s (clean generated)) max_features ''f_classif'' = Inr (t, names)
             else t = clean generated \<and> names = candidate_columns s (clean generated))"
proof -
  from assms obtain g where g: "run_generators b s dc df = Inr g"
    by (auto simp: engineer_features_def split: sum.splits)
  with assms show ?thesis
    by (auto simp: engineer_features_def Let_def split: if_splits)
qed


text \<open>
  C10. Whenever \<open>engineer_features\<close> returns a table, with or without selection, no
  cell of the table is missing.
\<close>

theorem engineer_features_output_has_no_missing_value:
  assumes "engineer_features b sc s dc df include_selection max_features = Inr (t, names)"
  shows "\<forall>(n, c)\<in>set t. \<forall>x\<in>set c. x \<noteq> NaN"
proof -
  from engineer_features_Inr[OF assms]
  obtain g where g: "run_generators b s dc df = Inr g"
    and r: "if include_selection \<and> max_features < int (length (candidate_columns s (clean g)))
             then select_features sc s (clean g) (target_column s)
                    (candidate_columns s (clean g)) max_features ''f_classif'' = Inr (t, names)
             else t = clean g \<and> names = candidate_columns s (clean g)"
    by blast
  have "no_missing t"
  proof (cases "include_selection \<and> max_features < int (length (candidate_columns s (clean g)))")
    case True
    with r have "t = map (\<lambda>n. (n, get_col (clean g) n)) (names @ [target_column s, timestamp_column s])"
      using select_features_result(1) by simp
    then show ?thesis
      using get_col_no_missing[OF no_missing_clean, of g] by (auto simp: no_missing_def)
  next
    case False
    with r show ?thesis by (simp add: no_missing_clean)
  qed
  then show ?thesis by (auto simp: no_missing_def)
qed

text \<open>When the pipeline returns: the generators succeed and selection does not run.\<close>

lemma engineer_features_returns:
  assumes "run_generators b s dc df = Inr generated"
    and "\<not> (include_selection \<and> max_features < int (length (candidate_columns s (clean generated))))"
  shows "engineer_features b sc s dc df include_selection max_features
           = Inr (clean generated, candidate_columns s (clean generated))"
  using assms by (auto simp: engineer_features_def Let_def)

lemma create_lag_features_returns:
  assumes "sampling_interval_minutes dc \<noteq> 0" and "distinct (columns df)"
  shows "\<exists>d. create_lag_features s dc df = Inr d \<and> distinct (columns d)"
  unfolding create_lag_features_fold[OF assms]
  by (simp add: distinct_column_loop[OF assms(2)])

lemma create_rolling_features_returns:
  assumes "\<forall>w\<in>set (rolling_windows s). 1 \<le> w" and "distinct (columns df)"
  shows "\<exists>d. create_rolling_features s df = Inr d \<and> distinct (columns d)"
  unfolding create_rolling_features_fold[OF assms]
  by (simp add: distinct_column_loop[OF assms(2)])

lemma create_rate_of_change_features_returns:
  assumes "distinct (columns df)"
  shows "\<exists>d. create_rate_of_change_features s df = Inr d \<and> distinct (columns d)"
  unfolding create_rate_of_change_features_fold[OF assms]
  by (simp add: distinct_column_loop[OF assms])

lemma run_generators_returns:
  assumes "create_time_based_features b s (rename_columns s df) = Inr d1"
    and "distinct (columns d1)"
    and "sampling_interval_minutes dc \<noteq> 0"
    and "\<forall>w\<in>set (rolling_windows s). 1 \<le> w"
  shows "\<exists>generated. run_generators b s dc df = Inr generated"
proof -
  from create_lag_features_returns[OF assms(3,2), of s]
  obtain d2 where l: "create_lag_features s dc d1 = Inr d2" and l': "distinct (columns d2)"
    by blast
  from create_rolling_features_returns[OF assms(4) l']
  obtain d3 where r: "create_rolling_features s d2 = Inr d3" and r': "distinct (columns d3)"
    by blast
  from create_rate_of_change_features_returns[OF r', of s]
  obtain d4 where c: "create_rate_of_change_features s d3 = Inr d4"
    by blast
  show ?thesis by (simp add: run_generators_def assms(1) l r c)
qed

section \<open>Runs of the pipeline\<close>

theorem clean_idempotent_witness:
  "clean (clean frame_humidity) = clean frame_humidity \<and>
   clean frame_humidity
     = [(''humidity'', [Num 1, Num 1, Num 3]), (''failure_indicator'', [Num 0, Num 1, Num 1])]"
  using clean_idempotent[of frame_humidity] clean_humidity by simp


theorem engineer_features_output_has_no_missing_value_witness:
  "NaN \<notin> set [Num 1, Num 1, Num 3] \<and> NaN \<notin> set [Num 0, Num 1, Num 1 :: cell]"
proof -
  from engineer_features_output_has_no_missing_value[OF pipeline_humidity]
  have "\<forall>(n, c)\<in>set [(''humidity'', [Num 1, Num 1, Num 3]), (''failure_indicator'', [Num 0, Num 1, Num 1])].
          \<forall>x\<in>set c. x \<noteq> NaN" .
  then show ?thesis by auto
qed

lemma generators_blank: "run_generators idle_bodies schema_A data_A frame_blank = Inr frame_blank"
  by (simp add: run_generators_def create_time_based_features_def rename_columns_def
      create_lag_features_def lag_periods_def create_rolling_features_def
      create_rate_of_change_features_def create_interaction_features_def key_interactions_def
      create_statistical_features_def create_anomaly_features_def
      create_domain_specific_features_def idle_bodies_def schema_A_def data_A_def
      frame_blank_def get_mapped_column_def columns_def Let_def)

lemma clean_blank: "clean frame_blank = [(''failure_indicator'', [])]"
  by (simp add: clean_def frame_blank_def columns_def thresh_of_1 Let_def dropna_thresh_def
      keep_rows_def nrows_def row_at_def upt_rec[of 0] upt_rec[of 1]
      fillna_ffill_def fillna_bfill_def ffill_def bfill_def dropna_def)

lemma eligible_rows_no_rows: "nrows d = 0 \<Longrightarrow> eligible_rows d target_col feature_columns = []"
  by (simp add: eligible_rows_def)

lemma select_features_no_rows:
  assumes "set feature_columns \<subseteq> set (columns d)"
    and "method = ''f_classif'' \<or> method = ''mutual_info''" and "nrows d = 0"
  shows "select_features sc s d target_col feature_columns k method
           = Inl (if target_col \<in> set (columns d) then ValueError else KeyError)"
  using assms by (auto simp: select_features_def Let_def eligible_rows_no_rows)

text \<open>
  C4, as the code has it. No statement of the pipeline raises an error for an empty
  table. When cleaning leaves no row and selection does not run, \<open>engineer_features\<close>
  returns the empty cleaned table with its candidate columns. When selection runs on
  a table without rows it ends with an error of the library: \<open>KeyError\<close> when the
  target column is absent from the cleaned table, and otherwise the \<open>ValueError\<close> with
  which the fit refuses an input without rows.
\<close>

theorem no_rows_after_cleaning:
  assumes "run_generators b s dc df = Inr generated"
    and "nrows (clean generated) = 0"
  shows "engineer_features b sc s dc df include_selection max_features
           = (if include_selection \<and> max_features < int (length (candidate_columns s (clean generated)))
              then Inl (if target_column s \<in> set (columns (clean generated))
                        then ValueError else KeyError)
              else Inr (clean generated, candidate_columns s (clean generated)))"
proof -
  let ?c = "clean generated"
  let ?fc = "candidate_columns s ?c"
  have sub: "set ?fc \<subseteq> set (columns ?c)" by (auto simp: candidate_columns_def)
  have e: "engineer_features b sc s dc df include_selection max_features
           = (if include_selection \<and> max_features < int (length ?fc)
              then select_features sc s ?c (target_column s) ?fc max_features ''f_classif''
              else Inr (?c, ?fc))"
    using assms(1) by (simp add: engineer_features_def Let_def)
  show ?thesis
    unfolding e
    by (simp add: select_features_no_rows[OF sub _ assms(2)])
qed

lemma generators_unlabelled:
  "run_generators idle_bodies schema_A data_A frame_unlabelled = Inr frame_unlabelled"
  by (simp add: run_generators_def create_time_based_features_def rename_columns_def
      create_lag_features_def lag_periods_def create_rolling_features_def
      create_rate_of_change_features_def create_interaction_features_def key_interactions_def
      create_statistical_features_def create_anomaly_features_def
      create_domain_specific_features_def idle_bodies_def schema_A_def data_A_def
      frame_unlabelled_def get_mapped_column_def columns_def Let_def)

lemma clean_unlabelled: "clean frame_unlabelled = [(''humidity'', [])]"
  by (simp add: clean_def frame_unlabelled_def columns_def thresh_of_1 Let_def dropna_thresh_def
      keep_rows_def nrows_def row_at_def upt_rec[of 0] upt_rec[of 1]
      fillna_ffill_def fillna_bfill_def ffill_def bfill_def dropna_def)

theorem no_rows_after_cleaning_witness:
  "engineer_features idle_bodies anova_scorers schema_A data_A frame_blank False 100
     = Inr (clean frame_blank, candidate_columns schema_A (clean frame_blank)) \<and>
   nrows (clean frame_blank) = 0 \<and>
   engineer_features idle_bodies anova_scorers schema_A data_A frame_unlabelled True 0
     = Inl KeyError \<and>
   nrows (clean frame_unlabelled) = 0"
proof -
  have n: "nrows (clean frame_blank) = 0" by (simp add: clean_blank nrows_def)
  have n': "nrows (clean frame_unlabelled) = 0" by (simp add: clean_unlabelled nrows_def)
  have c: "candidate_columns schema_A (clean frame_unlabelled) = [''humidity'']"
    by (simp add: clean_unlabelled candidate_columns_def columns_def schema_A_def)
  have t: "target_column schema_A \<notin> set (columns (clean frame_unlabelled))"
    by (simp add: clean_unlabelled columns_def schema_A_def)
  from no_rows_after_cleaning[OF generators_blank n, where include_selection=False
      and max_features=100 and sc=anova_scorers]
    no_rows_after_cleaning[OF generators_unlabelled n', where include_selection=True
      and max_features=0 and sc=anova_scorers] n n' c t
  show ?thesis by simp
qed

text \<open>
  The claim fails: cleaning removes the only row of \<open>frame_blank\<close>, and the pipeline
  returns the table without rows and an empty list of features instead of an error.
\<close>

theorem empty_result_returned_without_error:
  "engineer_features idle_bodies anova_scorers schema_A data_A frame_blank False 100
     = Inr ([(''failure_indicator'', [])], [])"
  unfolding engineer_features_def generators_blank
  by (simp add: clean_blank candidate_columns_def columns_def) (simp add: schema_A_def)

section \<open>The selection step\<close>





















section \<open>Validation of the configuration\<close>

lemma datetime_ge_cases:
  "datetime_ge a b = (if comparable a b then Inr (case (a, b) of (Naive x, Naive y) \<Rightarrow> y \<le> x
                                                   | (Aware x, Aware y) \<Rightarrow> y \<le> x
                                                   | _ \<Rightarrow> False)
                      else Inl TypeError)"
  by (cases a; cases b) (simp_all add: datetime_ge_def comparable_def)

lemma organization_config_outside_ok:
  "organization_config outside_ok ''sample_org'' dict_bad = Inr config_bad"
  by (simp add: organization_config_def outside_ok_def and_then_def init_schema_config_def
      dict_bad_def dict_get_def config_bad_def)

text \<open>
  C3, as the code has it. Validation raises no error for an invalid schema. For a
  start date and an end date that are both naive or both timezone-aware, \<open>validate\<close>
  returns a list of messages, which holds ``Target column is required'' exactly when
  the target column is empty and ``At least one continuous or boolean column must be
  specified'' exactly when both column lists are empty; for a naive and an aware date
  the comparison of the two raises TypeError, the only error of \<open>validate\<close>. Building
  the schema from the configuration entries keeps an empty target column, and the
  constructor returns the configuration with that schema when the initialisation of
  the other sections raises nothing. When the constructor, the validation and the
  saving raise nothing, \<open>create_default_config\<close> logs the messages as one warning if
  there are any and returns the configuration, whatever the messages are; an error of
  the constructor, the validation or the saving is the outcome of the call.
\<close>

theorem validate_reports_and_config_is_returned:
  "(validate c = Inl TypeError \<longleftrightarrow> \<not> comparable (start_date (data c)) (end_date (data c))) \<and>
   (validate c = Inl e \<longrightarrow> e = TypeError) \<and>
   (comparable (start_date (data c)) (end_date (data c)) \<longrightarrow>
      (\<exists>errors. validate c = Inr errors \<and>
         (''Target column is required'' \<in> set errors \<longleftrightarrow> target_column (schema c) = []) \<and>
         (''At least one continuous or boolean column must be specified'' \<in> set errors
            \<longleftrightarrow> continuous_columns (schema c) = [] \<and> boolean_columns (schema c) = []))) \<and>
   target_column (init_schema_config (d\<lparr>targetColumn := Some []\<rparr>)) = [] \<and>
   (init_scada_db_config io = Inr db \<and> init_training_config io = Inr tr \<and>
    init_data_config io = Inr da \<and> init_model_config io = Inr u \<longrightarrow>
      organization_config io org_id sd
        = Inr \<lparr>organization_id = org_id, scada_db = db, schema = init_schema_config sd,
               training = tr, data = da\<rparr>) \<and>
   (organization_config io org_id sd = Inr cfg \<and> validate cfg = Inr errs \<and>
    save_to_file io cfg = Inr v \<longrightarrow>
      create_default_config io org_id sd = Inr (if errs \<noteq> [] then [errs] else [], cfg)) \<and>
   (organization_config io org_id sd = Inl e1 \<longrightarrow> create_default_config io org_id sd = Inl e1) \<and>
   (organization_config io org_id sd = Inr cfg \<and> validate cfg = Inl e2 \<longrightarrow>
      create_default_config io org_id sd = Inl e2) \<and>
   (organization_config io org_id sd = Inr cfg \<and> validate cfg = Inr errs \<and>
    save_to_file io cfg = Inl e3 \<longrightarrow>
      create_default_config io org_id sd = Inl e3)"
proof (intro conjI)
  show "validate c = Inl TypeError \<longleftrightarrow> \<not> comparable (start_date (data c)) (end_date (data c))"
    by (simp add: validate_def datetime_ge_cases)
  show "validate c = Inl e \<longrightarrow> e = TypeError"
    by (auto simp: validate_def datetime_ge_cases split: if_splits)
  show "comparable (start_date (data c)) (end_date (data c)) \<longrightarrow>
      (\<exists>errors. validate c = Inr errors \<and>
         (''Target column is required'' \<in> set errors \<longleftrightarrow> target_column (schema c) = []) \<and>
         (''At least one continuous or boolean column must be specified'' \<in> set errors
            \<longleftrightarrow> continuous_columns (schema c) = [] \<and> boolean_columns (schema c) = []))"
    by (simp add: validate_def datetime_ge_cases)
  show "target_column (init_schema_config (d\<lparr>targetColumn := Some []\<rparr>)) = []"
    by (simp add: init_schema_config_def dict_get_def)
  show "init_scada_db_config io = Inr db \<and> init_training_config io = Inr tr \<and>
    init_data_config io = Inr da \<and> init_model_config io = Inr u \<longrightarrow>
      organization_config io org_id sd
        = Inr \<lparr>organization_id = org_id, scada_db = db, schema = init_schema_config sd,
               training = tr, data = da\<rparr>"
    by (simp add: organization_config_def and_then_def)
  show "organization_config io org_id sd = Inr cfg \<and> validate cfg = Inr errs \<and>
    save_to_file io cfg = Inr v \<longrightarrow>
      create_default_config io org_id sd = Inr (if errs \<noteq> [] then [errs] else [], cfg)"
    by (simp add: create_default_config_def and_then_def)
  show "organization_config io org_id sd = Inl e1 \<longrightarrow> create_default_config io org_id sd = Inl e1"
    by (simp add: create_default_config_def and_then_def)
  show "organization_config io org_id sd = Inr cfg \<and> validate cfg = Inl e2 \<longrightarrow>
      create_default_config io org_id sd = Inl e2"
    by (simp add: create_default_config_def and_then_def)
  show "organization_config io org_id sd = Inr cfg \<and> validate cfg = Inr errs \<and>
    save_to_file io cfg = Inl e3 \<longrightarrow>
      create_default_config io org_id sd = Inl e3"
    by (simp add: create_default_config_def and_then_def)
qed

theorem validate_reports_and_config_is_returned_witness:
  "\<exists>errors. validate config_bad = Inr errors \<and>
     ''Target column is required'' \<in> set errors \<and>
     ''At least one continuous or boolean column must be specified'' \<in> set errors \<and>
     create_default_config outside_ok ''sample_org'' dict_bad = Inr ([errors], config_bad)"
proof -
  have dates: "comparable (start_date (data config_bad)) (end_date (data config_bad))"
    by (simp add: config_bad_def data_A_def comparable_def)
  have empty: "target_column (schema config_bad) = []"
    "continuous_columns (schema config_bad) = [] \<and> boolean_columns (schema config_bad) = []"
    by (simp_all add: config_bad_def)
  have save: "save_to_file outside_ok config_bad = Inr ()"
    by (simp add: outside_ok_def)
  note T = validate_reports_and_config_is_returned[where c=config_bad and io=outside_ok
      and org_id="''sample_org''" and sd=dict_bad and cfg=config_bad and v="()"]
  from T dates empty obtain errors where v: "validate config_bad = Inr errors"
    and t: "''Target column is required'' \<in> set errors"
    and a: "''At least one continuous or boolean column must be specified'' \<in> set errors"
    by blast
  from t have ne: "errors \<noteq> []" by auto
  from T[where errs=errors] organization_config_outside_ok v save
  have "create_default_config outside_ok ''sample_org'' dict_bad
          = Inr (if errors \<noteq> [] then [errors] else [], config_bad)"
    by blast
  with ne v t a show ?thesis by simp
qed

text \<open>
  The claim fails: for the entries \<open>dict_bad\<close>, whose target column is empty and which
  declare no column, the schema is built, \<open>validate\<close> returns two messages, and
  \<open>create_default_config\<close> logs them and returns the configuration. What is raised
  has other causes: TypeError for a timezone-aware start date with a naive end date,
  and the error of the saving when the file cannot be written.
\<close>

theorem invalid_schema_is_built_and_returned:
  "init_schema_config dict_bad = schema config_bad \<and>
   target_column (schema config_bad) = [] \<and>
   continuous_columns (schema config_bad) = [] \<and> boolean_columns (schema config_bad) = [] \<and>
   validate config_bad
     = Inr [''At least one continuous or boolean column must be specified'',
            ''Target column is required''] \<and>
   create_default_config outside_ok ''sample_org'' dict_bad
     = Inr ([[''At least one continuous or boolean column must be specified'',
              ''Target column is required'']], config_bad) \<and>
   validate config_mixed_dates = Inl TypeError \<and>
   create_default_config outside_readonly ''sample_org'' dict_bad = Inl OSError"
proof -
  have v: "validate config_bad
     = Inr [''At least one continuous or boolean column must be specified'',
            ''Target column is required'']"
    by (simp add: validate_def datetime_ge_def config_bad_def data_A_def)
  have c: "create_default_config outside_ok ''sample_org'' dict_bad
     = Inr ([[''At least one continuous or boolean column must be specified'',
              ''Target column is required'']], config_bad)"
    by (simp add: create_default_config_def organization_config_outside_ok and_then_def v)
       (simp add: outside_ok_def)
  have o: "organization_config outside_readonly ''sample_org'' dict_bad = Inr config_bad"
    by (simp add: organization_config_def outside_readonly_def outside_ok_def and_then_def
        init_schema_config_def dict_bad_def dict_get_def config_bad_def)
  have r: "create_default_config outside_readonly ''sample_org'' dict_bad = Inl OSError"
    by (simp add: create_default_config_def o and_then_def v) (simp add: outside_readonly_def)
  have i: "init_schema_config dict_bad = schema config_bad"
    by (simp add: init_schema_config_def dict_bad_def dict_get_def config_bad_def)
  have e: "target_column (schema config_bad) = [] \<and>
           continuous_columns (schema config_bad) = [] \<and> boolean_columns (schema config_bad) = []"
    by (simp add: config_bad_def)
  have m: "validate config_mixed_dates = Inl TypeError"
    by (simp add: validate_def datetime_ge_def config_mixed_dates_def config_bad_def data_A_def)
  from v c r i e m show ?thesis by blast
qed

end
